theory Spec2Isabelle
  imports Main "HOL-Library.Sublist"
begin

section \<open>Python values, strings and errors\<close>

text \<open>
  Strings are lists of characters; a character stands for a code point below 256.
  A spreadsheet cell is a Python string, an integer, or any other object, which is
  carried by the text that \<^verbatim>\<open>str()\<close> gives for it (a float, NaN, a timestamp).
\<close>

datatype cell = StrV string | IntV int | OtherV string

definition digit_char :: "nat \<Rightarrow> char" where
  "digit_char d = ''0123456789'' ! d"

function str_nat :: "nat \<Rightarrow> string" where
  "str_nat n = (if n < 10 then [digit_char n] else str_nat (n div 10) @ [digit_char (n mod 10)])"
  by pat_completeness auto
termination
  by (relation "measure (\<lambda>n. n)") auto

declare str_nat.simps [simp del]

definition str_int :: "int \<Rightarrow> string" where
  "str_int i = (if i < 0 then CHR ''-'' # str_nat (nat (- i)) else str_nat (nat i))"

fun py_str :: "cell \<Rightarrow> string" where
  "py_str (StrV s) = s"
| "py_str (IntV i) = str_int i"
| "py_str (OtherV s) = s"

text \<open>
  \<^verbatim>\<open>str.isspace\<close> on the code points below 256: tab, line feed, vertical tab, form
  feed, carriage return, the four separators 28 to 31, space, NEL (133) and the
  no-break space (160).
\<close>

definition isspace :: "char \<Rightarrow> bool" where
  "isspace c = ((of_char c :: nat) \<in> {9, 10, 11, 12, 13, 28, 29, 30, 31, 32, 133, 160})"

text \<open>\<^verbatim>\<open>s.strip()\<close>: whitespace removed at both ends.\<close>

definition py_strip :: "string \<Rightarrow> string" where
  "py_strip s = rev (dropWhile isspace (rev (dropWhile isspace s)))"

text \<open>
  \<^verbatim>\<open>s.replace(old, new)\<close>: the occurrences of \<open>old\<close> are found from the left and do
  not overlap; with an empty \<open>old\<close> Python puts \<open>new\<close> before every character and at
  the end.
\<close>

function replace_scan :: "string \<Rightarrow> string \<Rightarrow> string \<Rightarrow> string" where
  "replace_scan old new s =
     (if old = [] then s
      else if prefix old s then new @ replace_scan old new (drop (length old) s)
      else (case s of [] \<Rightarrow> [] | c # cs \<Rightarrow> c # replace_scan old new cs))"
  by pat_completeness auto
termination
  by (relation "measure (\<lambda>(old, new, s). length s)") (auto simp: prefix_def)

declare replace_scan.simps [simp del]

definition py_replace :: "string \<Rightarrow> string \<Rightarrow> string \<Rightarrow> string" where
  "py_replace s old new =
     (if old = [] then new @ concat (map (\<lambda>c. c # new) s) else replace_scan old new s)"

datatype py_key = StrKey string | IntKey int

datatype error =
    TemplateEmptyOrNoneException string
  | DfEmptyException string
  | KeyError py_key
  | AttributeError
  | NotLoggedInException string

section \<open>Tabular data\<close>

text \<open>
  A \<^verbatim>\<open>pd.Series\<close> is its index labels with their values. A \<^verbatim>\<open>pd.DataFrame\<close> is its
  column labels and its rows of values, under the default index 0, 1, 2, ... that
  \<^verbatim>\<open>pd.read_excel\<close> gives, so that the label 0 of \<^verbatim>\<open>df.loc[0, name]\<close> is the first
  row. Column labels are taken to be distinct, as \<^verbatim>\<open>read_excel\<close> makes them.
\<close>

type_synonym series = "(string \<times> cell) list"

record dataframe =
  columns :: "string list"
  rows :: "cell list list"

datatype data = Series series | DataFrame dataframe

definition wf_dataframe :: "dataframe \<Rightarrow> bool" where
  "wf_dataframe d = (distinct (columns d) \<and> list_all (\<lambda>r. length r = length (columns d)) (rows d))"

text \<open>\<^verbatim>\<open>df.empty\<close>: some axis has length 0.\<close>

definition df_empty :: "dataframe \<Rightarrow> bool" where
  "df_empty d = (rows d = [] \<or> columns d = [])"

text \<open>The row at a position, as the Series that \<^verbatim>\<open>apply(axis=1)\<close> and \<^verbatim>\<open>iterrows\<close> hand out.\<close>

definition row_series :: "dataframe \<Rightarrow> cell list \<Rightarrow> series" where
  "row_series d r = zip (columns d) r"

text \<open>\<^verbatim>\<open>data[var_name]\<close> on a Series.\<close>

definition series_getitem :: "series \<Rightarrow> string \<Rightarrow> error + cell" where
  "series_getitem s k = (case map_of s k of None \<Rightarrow> Inl (KeyError (StrKey k)) | Some v \<Rightarrow> Inr v)"

text \<open>\<^verbatim>\<open>data.loc[0, var_name]\<close> on a DataFrame: the column is looked up first, then the row label 0.\<close>

definition loc0 :: "dataframe \<Rightarrow> string \<Rightarrow> error + cell" where
  "loc0 d k =
     (if k \<notin> set (columns d) then Inl (KeyError (StrKey k))
      else (case rows d of
              [] \<Rightarrow> Inl (KeyError (IntKey 0))
            | r # _ \<Rightarrow> series_getitem (row_series d r) k))"

section \<open>utils.py\<close>

text \<open>\<^verbatim>\<open>validate_dataframe(df)\<close>\<close>

definition validate_dataframe :: "dataframe option \<Rightarrow> error + unit" where
  "validate_dataframe df =
     (case df of
        None \<Rightarrow> Inl (DfEmptyException ''No file uploaded.'')
      | Some d \<Rightarrow> if df_empty d then Inl (DfEmptyException ''File empty.'') else Inr ())"

text \<open>
  \<^verbatim>\<open>re.findall(r"\{([^}]+)\}", original_message)\<close>: at an opening brace the class
  \<^verbatim>\<open>[^}]+\<close> takes the longest run of characters other than the closing brace; the
  match succeeds when the run is not empty and a closing brace follows it, and the
  scan goes on behind that brace; otherwise the scan goes on at the next character.
\<close>

function placeholders :: "string \<Rightarrow> string list" where
  "placeholders [] = []"
| "placeholders (c # cs) =
     (if c = CHR ''{''
      then (let name = takeWhile (\<lambda>x. x \<noteq> CHR ''}'') cs;
                rest = dropWhile (\<lambda>x. x \<noteq> CHR ''}'') cs
            in if name \<noteq> [] \<and> rest \<noteq> [] then name # placeholders (tl rest)
               else placeholders cs)
      else placeholders cs)"
  by pat_completeness auto
termination
proof (relation "measure length")
  fix c :: char and cs name rest :: string
  assume "rest = dropWhile (\<lambda>x. x \<noteq> CHR ''}'') cs"
  moreover have "length (dropWhile (\<lambda>x. x \<noteq> CHR ''}'') cs) \<le> length cs"
    by (rule length_dropWhile_le)
  ultimately have "length (tl rest) \<le> length cs"
    by simp
  then show "(tl rest, c # cs) \<in> measure length" by simp
qed auto

text \<open>\<^verbatim>\<open>variable_names = [var.strip() for var in placeholders]\<close>\<close>

definition variable_names :: "string \<Rightarrow> string list" where
  "variable_names original_message = map py_strip (placeholders original_message)"

text \<open>The value of one variable: first row of a DataFrame, or the field of a Series.\<close>

fun var_value :: "data \<Rightarrow> string \<Rightarrow> error + cell" where
  "var_value (DataFrame d) var_name = loc0 d var_name"
| "var_value (Series s) var_name = series_getitem s var_name"

definition token :: "string \<Rightarrow> string" where
  "token var_name = ''{'' @ var_name @ ''}''"

text \<open>The \<^verbatim>\<open>for var_name in variable_names\<close> loop over the evolving \<open>result\<close>.\<close>

fun substitute :: "data \<Rightarrow> string list \<Rightarrow> string \<Rightarrow> error + string" where
  "substitute d [] result = Inr result"
| "substitute d (var_name # vs) result =
     (case var_value d var_name of
        Inl e \<Rightarrow> Inl e
      | Inr v \<Rightarrow> substitute d vs (py_replace result (token var_name) (py_str v)))"

definition format_message_base :: "string option \<Rightarrow> data \<Rightarrow> error + string" where
  "format_message_base original_message d =
     (case original_message of
        None \<Rightarrow> Inl (TemplateEmptyOrNoneException ''Template empty.'')
      | Some m \<Rightarrow>
          if m = [] then Inl (TemplateEmptyOrNoneException ''Template empty.'')
          else substitute d (variable_names m) m)"

definition format_preview_message :: "string option \<Rightarrow> dataframe option \<Rightarrow> error + string" where
  "format_preview_message original_message df =
     (case validate_dataframe df of
        Inl e \<Rightarrow> Inl e
      | Inr _ \<Rightarrow> format_message_base original_message (DataFrame (the df)))"

definition format_message :: "series \<Rightarrow> string option \<Rightarrow> error + string" where
  "format_message row original_message = format_message_base original_message (Series row)"

text \<open>
  The algorithm in the words of the specification (4.3), for a record that has every
  field asked for: the names are taken in order and, for each, every occurrence of
  its token in the result so far is replaced by the string form of the field.
\<close>

definition replace_in_order :: "series \<Rightarrow> string list \<Rightarrow> string \<Rightarrow> string" where
  "replace_in_order record names template =
     foldl (\<lambda>result name. py_replace result (token name) (py_str (the (map_of record name))))
       template names"

section \<open>service_whatsapp/main.py\<close>

text \<open>
  What lies outside the program is given as input: what \<^verbatim>\<open>pg.locateOnScreen\<close> finds
  of the picture \<^verbatim>\<open>check.png\<close>, whether the n-th call (from 0) of
  \<^verbatim>\<open>kit.sendwhatmsg_instantly\<close> returns or raises, and the answers of
  \<^verbatim>\<open>validations_ui.check_selector_template\<close> and \<^verbatim>\<open>validations_ui.check_upload_file\<close>,
  two functions of the repository that are not among the sources at hand.
\<close>

datatype locate_result = Located | NotLocated | ImageNotFoundException

record world =
  check_selector_template :: bool
  check_upload_file :: bool
  locateOnScreen :: locate_result
  sendwhatmsg_instantly :: "nat \<Rightarrow> bool"

text \<open>The calls that reach the browser, in the order they are made.\<close>

datatype event = CheckLogin | SendWhatsappMessage cell cell

text \<open>
  \<^verbatim>\<open>check_login_whatsapp()\<close>: the picture on the screen means that the login page is
  shown; the handler for \<^verbatim>\<open>pg.ImageNotFoundException\<close> returns normally.
\<close>

definition check_login_whatsapp :: "locate_result \<Rightarrow> error + unit" where
  "check_login_whatsapp location =
     (case location of
        NotLocated \<Rightarrow> Inr ()
      | Located \<Rightarrow> Inl (NotLoggedInException ''Not logged in at WhatsApp Web'')
      | ImageNotFoundException \<Rightarrow> Inr ())"

section \<open>pages/main\_page/app\_logic.py\<close>

text \<open>
  The value of a text field is a string, except for the message built from an
  exception \<open>e\<close> by \<^verbatim>\<open>f"Error formatting messages: {e}"\<close>, which is kept as the
  exception itself.
\<close>

datatype ui_text = Text string | ErrorFormattingMessages error

record ui_manager =
  df :: "dataframe option"
  txf_area_msg :: "string option"
  txf_result :: ui_text
  txf_result_op :: ui_text

text \<open>
  \<^verbatim>\<open>df.apply(lambda row: utils.format_message(row, template), axis=1)\<close>: the rows are
  formatted in table order and the first exception leaves the call. (On a frame
  without rows pandas has a path of its own, which is not followed here; the
  properties below that depend on it are about frames with rows.)
\<close>

fun apply_format_message :: "dataframe \<Rightarrow> string option \<Rightarrow> cell list list \<Rightarrow> error + string list" where
  "apply_format_message d template [] = Inr []"
| "apply_format_message d template (r # rs) =
     (case format_message (row_series d r) template of
        Inl e \<Rightarrow> Inl e
      | Inr m \<Rightarrow> (case apply_format_message d template rs of
                    Inl e \<Rightarrow> Inl e
                  | Inr ms \<Rightarrow> Inr (m # ms)))"

text \<open>\<^verbatim>\<open>df[name] = values\<close>: an existing column is overwritten where it stands, a new one is put last.\<close>

definition set_column :: "dataframe \<Rightarrow> string \<Rightarrow> cell list \<Rightarrow> dataframe" where
  "set_column d name vals =
     (if name \<in> set (columns d)
      then d\<lparr>rows := map (\<lambda>(r, v). map (\<lambda>(c, x). if c = name then v else x) (zip (columns d) r))
                         (zip (rows d) vals)\<rparr>
      else d\<lparr>columns := columns d @ [name],
             rows := map (\<lambda>(r, v). r @ [v]) (zip (rows d) vals)\<rparr>)"

text \<open>The first \<^verbatim>\<open>try\<close> block of \<^verbatim>\<open>handle_send_messages\<close>; a missing frame has no \<^verbatim>\<open>apply\<close>.\<close>

definition format_all :: "dataframe option \<Rightarrow> string option \<Rightarrow> error + dataframe" where
  "format_all frame template =
     (case frame of
        None \<Rightarrow> Inl AttributeError
      | Some d \<Rightarrow>
          (case apply_format_message d template (rows d) of
             Inl e \<Rightarrow> Inl e
           | Inr ms \<Rightarrow> Inr (set_column d ''formatted_message'' (map StrV ms))))"

text \<open>
  The \<^verbatim>\<open>for index, recipient in df.iterrows()\<close> loop. It leaves by running out of rows,
  by the \<^verbatim>\<open>return\<close> of its \<^verbatim>\<open>except\<close> block, or by an exception raised inside that
  block, where \<^verbatim>\<open>recipient['numero']\<close> is read again.
\<close>

datatype loop_exit = Completed | SendFailed cell | Uncaught error

record send_state =
  trace :: "event list"
  messages_sent :: nat

definition except_block :: "series \<Rightarrow> loop_exit" where
  "except_block recipient =
     (case series_getitem recipient ''numero'' of
        Inl e \<Rightarrow> Uncaught e
      | Inr numero \<Rightarrow> SendFailed numero)"

fun send_rows :: "(nat \<Rightarrow> bool) \<Rightarrow> series list \<Rightarrow> nat \<Rightarrow> send_state \<Rightarrow> loop_exit \<times> send_state" where
  "send_rows send [] calls st = (Completed, st)"
| "send_rows send (recipient # rest) calls st =
     (case series_getitem recipient ''numero'' of
        Inl e \<Rightarrow> (except_block recipient, st)
      | Inr phone \<Rightarrow>
          (case series_getitem recipient ''formatted_message'' of
             Inl e \<Rightarrow> (except_block recipient, st)
           | Inr message \<Rightarrow>
               (let st1 = st\<lparr>trace := trace st @ [SendWhatsappMessage phone message]\<rparr>
                in if send calls
                   then send_rows send rest (Suc calls) (st1\<lparr>messages_sent := messages_sent st1 + 1\<rparr>)
                   else (except_block recipient, st1))))"

record outcome =
  ui :: ui_manager
  events :: "event list"
  sent :: nat
  raised :: "error option"

definition login_instruction :: string where
  "login_instruction =
     ''Error trying sent messages. Please verify you are logged in at https://web.whatsapp.com''"

definition handle_send_messages :: "world \<Rightarrow> ui_manager \<Rightarrow> outcome" where
  "handle_send_messages w u =
     (if \<not> check_selector_template w then \<lparr>ui = u, events = [], sent = 0, raised = None\<rparr>
      else if \<not> check_upload_file w then \<lparr>ui = u, events = [], sent = 0, raised = None\<rparr>
      else
        (case format_all (df u) (txf_area_msg u) of
           Inl e \<Rightarrow>
             \<lparr>ui = u\<lparr>txf_result := ErrorFormattingMessages e\<rparr>, events = [], sent = 0, raised = None\<rparr>
         | Inr d \<Rightarrow>
             (let u1 = u\<lparr>df := Some d\<rparr>
              in case check_login_whatsapp (locateOnScreen w) of
                   Inl e \<Rightarrow>
                     \<lparr>ui = u1\<lparr>txf_result := Text login_instruction\<rparr>,
                      events = [CheckLogin], sent = 0, raised = None\<rparr>
                 | Inr _ \<Rightarrow>
                     (case send_rows (sendwhatmsg_instantly w) (map (row_series d) (rows d)) 0
                             \<lparr>trace = [CheckLogin], messages_sent = 0\<rparr> of
                        (Completed, st) \<Rightarrow>
                          \<lparr>ui = u1\<lparr>txf_result_op :=
                                  Text (''Messages sent successfully. ['' @ str_nat (messages_sent st) @ '']'')\<rparr>,
                           events = trace st, sent = messages_sent st, raised = None\<rparr>
                      | (SendFailed numero, st) \<Rightarrow>
                          \<lparr>ui = u1\<lparr>txf_result_op :=
                                  Text (''Error with message to '' @ py_str numero @ ''.'')\<rparr>,
                           events = trace st, sent = messages_sent st, raised = None\<rparr>
                      | (Uncaught e, st) \<Rightarrow>
                          \<lparr>ui = u1, events = trace st, sent = messages_sent st, raised = Some e\<rparr>))))"

text \<open>The call that the loop makes for a recipient that has both fields.\<close>

definition send_event :: "series \<Rightarrow> event" where
  "send_event recipient =
     SendWhatsappMessage (the (map_of recipient ''numero'')) (the (map_of recipient ''formatted_message''))"

text \<open>A table of three recipients, a window on it, and a world that passes both checks.\<close>

definition sample_frame :: dataframe where
  "sample_frame = \<lparr>columns = [''numero'', ''name''],
      rows = [[StrV ''555'', StrV ''Ana''], [StrV ''666'', StrV ''Bo''], [StrV ''777'', StrV ''Cy'']]\<rparr>"

definition sample_ui :: "string \<Rightarrow> ui_manager" where
  "sample_ui template =
     \<lparr>df = Some sample_frame, txf_area_msg = Some template, txf_result = Text [], txf_result_op = Text []\<rparr>"

definition sample_world :: "locate_result \<Rightarrow> (nat \<Rightarrow> bool) \<Rightarrow> world" where
  "sample_world location send =
     \<lparr>check_selector_template = True, check_upload_file = True,
      locateOnScreen = location, sendwhatmsg_instantly = send\<rparr>"

text \<open>A send primitive that returns on the calls before the k-th and raises from there on.\<close>

definition succeeds_before :: "nat \<Rightarrow> nat \<Rightarrow> bool" where
  "succeeds_before k n = (n < k)"

section \<open>The pattern of a placeholder\<close>

text \<open>
  The pattern \<^verbatim>\<open>\{([^}]+)\}\<close> read as a specification. \<^verbatim>\<open>slice t i j\<close> is \<^verbatim>\<open>t[i:j]\<close>. The pattern
  matches the template from position i to position j when an opening brace stands at
  i, a closing brace at j, at least one character stands between them and none of
  the characters between them is a closing brace; the name of the match is
  \<^verbatim>\<open>t[i+1:j]\<close>.
\<close>

definition slice :: "string \<Rightarrow> nat \<Rightarrow> nat \<Rightarrow> string" where
  "slice t i j = take (j - i) (drop i t)"

definition match_at :: "string \<Rightarrow> nat \<Rightarrow> nat \<Rightarrow> bool" where
  "match_at t i j =
     (Suc i < j \<and> j < length t \<and> t ! i = CHR ''{'' \<and> t ! j = CHR ''}''
      \<and> CHR ''}'' \<notin> set (slice t (Suc i) j))"

section \<open>Placeholder extraction\<close>

lemma placeholders_no_open: "CHR ''{'' \<notin> set t \<Longrightarrow> placeholders t = []"
  by (induction t) auto

lemma placeholders_no_close: "CHR ''}'' \<notin> set t \<Longrightarrow> placeholders t = []"
proof (induction t)
  case Nil
  show ?case by simp
next
  case (Cons c cs)
  then have "dropWhile (\<lambda>x. x \<noteq> CHR ''}'') cs = []"
    by (auto simp: dropWhile_eq_Nil_conv)
  with Cons show ?case by auto
qed

lemma placeholders_open:
  assumes "name \<noteq> []" and "CHR ''}'' \<notin> set name"
  shows "placeholders (CHR ''{'' # name @ CHR ''}'' # rest) = name # placeholders rest"
proof -
  have tw: "takeWhile (\<lambda>x. x \<noteq> CHR ''}'') (name @ CHR ''}'' # rest) = name"
    using assms(2) by (subst takeWhile_append2) auto
  have dw: "dropWhile (\<lambda>x. x \<noteq> CHR ''}'') (name @ CHR ''}'' # rest) = CHR ''}'' # rest"
    using assms(2) by (subst dropWhile_append2) auto
  show ?thesis
    using assms(1) by (simp add: tw dw)
qed

lemma placeholders_skip:
  "CHR ''{'' \<notin> set pre \<Longrightarrow> placeholders (pre @ s) = placeholders s"
  by (induction pre) auto

lemma placeholders_first:
  assumes "CHR ''{'' \<notin> set pre" and "name \<noteq> []" and "CHR ''}'' \<notin> set name"
  shows "placeholders (pre @ token name @ rest) = name # placeholders rest"
  using assms by (simp add: placeholders_skip token_def placeholders_open del: placeholders.simps)

lemma placeholders_sound:
  "n \<in> set (placeholders t) \<Longrightarrow> n \<noteq> [] \<and> CHR ''}'' \<notin> set n \<and> sublist (token n) t"
proof (induction t arbitrary: n rule: placeholders.induct)
  case 1
  then show ?case by simp
next
  case (2 c cs)
  define name where "name = takeWhile (\<lambda>x. x \<noteq> CHR ''}'') cs"
  define rest where "rest = dropWhile (\<lambda>x. x \<noteq> CHR ''}'') cs"
  show ?case
  proof (cases "c = CHR ''{'' \<and> name \<noteq> [] \<and> rest \<noteq> []")
    case True
    have cs: "cs = name @ rest"
      by (simp add: name_def rest_def)
    have "hd rest = CHR ''}''"
      using True hd_dropWhile[of "\<lambda>x. x \<noteq> CHR ''}''" cs] by (simp add: rest_def)
    with True have rest: "rest = CHR ''}'' # tl rest"
      by (cases rest) simp_all
    have noclose: "CHR ''}'' \<notin> set name"
      using set_takeWhileD[of "CHR ''}''" "\<lambda>x. x \<noteq> CHR ''}''" cs] by (auto simp: name_def)
    have whole: "c # cs = token name @ tl rest"
      using True cs rest by (simp add: token_def)
    from "2.prems" True have "n = name \<or> n \<in> set (placeholders (tl rest))"
      by (simp add: name_def rest_def Let_def)
    then show ?thesis
    proof
      assume "n = name"
      then show ?thesis
        using True noclose whole by simp
    next
      assume "n \<in> set (placeholders (tl rest))"
      then have ih: "n \<noteq> [] \<and> CHR ''}'' \<notin> set n \<and> sublist (token n) (tl rest)"
        using "2.IH"(1)[OF _ name_def rest_def] True by simp
      then have "sublist (token n) (token name @ tl rest)"
        by (meson sublist_append)
      with ih whole show ?thesis by simp
    qed
  next
    case False
    with "2.prems" have "n \<in> set (placeholders cs)"
      by (auto simp: name_def rest_def Let_def split: if_splits)
    then have ih: "n \<noteq> [] \<and> CHR ''}'' \<notin> set n \<and> sublist (token n) cs"
      using "2.IH"(2,3) False
      by (metis name_def rest_def)
    then show ?thesis
      by (simp add: sublist_Cons_right)
  qed
qed

section \<open>The formatter\<close>

lemma var_value_error: "var_value d n = Inl e \<Longrightarrow> \<exists>k. e = KeyError k"
  by (cases d) (auto simp: loc0_def series_getitem_def split: if_splits list.splits option.splits)

lemma loc0_first_row:
  "rows d \<noteq> [] \<Longrightarrow> loc0 d k = series_getitem (row_series d (hd (rows d))) k"
proof (cases "k \<in> set (columns d)")
  case True
  assume "rows d \<noteq> []"
  with True show ?thesis by (cases "rows d") (simp_all add: loc0_def)
next
  case False
  then have "k \<notin> fst ` set (zip (columns d) (hd (rows d)))"
    by (auto dest: set_zip_leftD)
  then have "map_of (zip (columns d) (hd (rows d))) k = None"
    by (simp add: map_of_eq_None_iff)
  with False show ?thesis
    by (simp add: loc0_def series_getitem_def row_series_def)
qed

lemma substitute_first_row:
  "rows d \<noteq> [] \<Longrightarrow>
   substitute (DataFrame d) vs r = substitute (Series (row_series d (hd (rows d)))) vs r"
  by (induction vs arbitrary: r) (simp_all add: loc0_first_row split: sum.splits)

text \<open>
  Claim C1, as amended. An empty or absent template makes \<^verbatim>\<open>format_message_base\<close> and
  \<^verbatim>\<open>format_message\<close> fail with \<^verbatim>\<open>TemplateEmptyOrNoneException\<close> whatever the data; the
  preview validates the frame first, so it fails with \<^verbatim>\<open>DfEmptyException\<close> when the
  frame is absent or empty and with \<^verbatim>\<open>TemplateEmptyOrNoneException\<close> only when the frame
  has data.
\<close>

theorem empty_template_error:
  assumes "t = None \<or> t = Some []"
  shows "format_message_base t d = Inl (TemplateEmptyOrNoneException ''Template empty.'')
     \<and> format_message row t = Inl (TemplateEmptyOrNoneException ''Template empty.'')
     \<and> format_preview_message t None = Inl (DfEmptyException ''No file uploaded.'')
     \<and> (df_empty frame \<longrightarrow>
          format_preview_message t (Some frame) = Inl (DfEmptyException ''File empty.''))
     \<and> (\<not> df_empty frame \<longrightarrow>
          format_preview_message t (Some frame) = Inl (TemplateEmptyOrNoneException ''Template empty.''))"
  using assms
  by (auto simp: format_message_base_def format_message_def format_preview_message_def
      validate_dataframe_def)

theorem empty_template_error_witness:
  "(Some [] = None \<or> Some [] = Some ([] :: string))
   \<and> \<not> df_empty \<lparr>columns = [''numero''], rows = [[StrV ''555'']]\<rparr>
   \<and> format_message_base (Some []) (Series []) = Inl (TemplateEmptyOrNoneException ''Template empty.'')
   \<and> format_preview_message (Some []) (Some \<lparr>columns = [''numero''], rows = [[StrV ''555'']]\<rparr>)
       = Inl (TemplateEmptyOrNoneException ''Template empty.'')
   \<and> df_empty \<lparr>columns = [''numero''], rows = []\<rparr>
   \<and> format_preview_message (Some []) (Some \<lparr>columns = [''numero''], rows = []\<rparr>)
       = Inl (DfEmptyException ''File empty.'')"
  using empty_template_error[of "Some []" "Series []" "[]" "\<lparr>columns = [''numero''], rows = [[StrV ''555'']]\<rparr>"]
    empty_template_error[of "Some []" "Series []" "[]" "\<lparr>columns = [''numero''], rows = []\<rparr>"]
  by (simp add: df_empty_def)

text \<open>
  Claim C1 as stated fails in the preview: with an empty template and no frame the
  error is \<^verbatim>\<open>DfEmptyException\<close>, not \<^verbatim>\<open>TemplateEmptyOrNoneException\<close>.
\<close>

theorem empty_template_preview_counterexample:
  "format_preview_message (Some []) None = Inl (DfEmptyException ''No file uploaded.'')
   \<and> format_preview_message (Some []) None \<noteq> Inl (TemplateEmptyOrNoneException ''Template empty.'')"
  by (simp add: format_preview_message_def validate_dataframe_def)

text \<open>
  Claim C9. A template that is not empty and in which extraction finds no token is
  returned as it is, for a row, for any data handed to \<^verbatim>\<open>format_message_base\<close>, and
  in the preview for every frame that passes validation.
\<close>

theorem no_placeholders_unchanged:
  assumes "t \<noteq> []" and "placeholders t = []"
  shows "format_message_base (Some t) d = Inr t
     \<and> format_message row (Some t) = Inr t
     \<and> (\<not> df_empty frame \<longrightarrow> format_preview_message (Some t) (Some frame) = Inr t)"
  using assms
  by (simp add: format_message_base_def format_message_def format_preview_message_def
      validate_dataframe_def variable_names_def)

theorem no_placeholders_unchanged_witness:
  "''Hello {'' \<noteq> [] \<and> placeholders ''Hello {'' = []
   \<and> \<not> df_empty \<lparr>columns = [''numero''], rows = [[StrV ''555'']]\<rparr>
   \<and> format_message [(''numero'', StrV ''555'')] (Some ''Hello {'') = Inr ''Hello {''
   \<and> format_preview_message (Some ''Hello {'') (Some \<lparr>columns = [''numero''], rows = [[StrV ''555'']]\<rparr>)
       = Inr ''Hello {''"
  using no_placeholders_unchanged[of "''Hello {''" "Series []" "[(''numero'', StrV ''555'')]"
      "\<lparr>columns = [''numero''], rows = [[StrV ''555'']]\<rparr>"]
  by (simp add: df_empty_def)

lemma substitute_missing:
  "n \<in> set vs \<Longrightarrow> var_value d n = Inl e \<Longrightarrow>
   \<exists>m \<in> set vs. \<exists>k. var_value d m = Inl (KeyError k) \<and> substitute d vs r = Inl (KeyError k)"
proof (induction vs arbitrary: r)
  case Nil
  then show ?case by simp
next
  case (Cons a vs)
  show ?case
  proof (cases "var_value d a")
    case (Inl e')
    then obtain k where "e' = KeyError k"
      using var_value_error by blast
    with Inl show ?thesis by auto
  next
    case (Inr v)
    with Cons.prems have "n \<in> set vs" by auto
    from Cons.IH[OF this Cons.prems(2)] Inr show ?thesis by auto
  qed
qed

lemma series_missing:
  "var_value (Series row) m = Inl (KeyError k) \<Longrightarrow> k = StrKey m \<and> map_of row m = None"
  by (auto simp: series_getitem_def split: option.splits)

lemma frame_missing:
  assumes "var_value (DataFrame d) m = Inl (KeyError k)" and "\<not> df_empty d" and "wf_dataframe d"
  shows "k = StrKey m \<and> m \<notin> set (columns d)"
proof (cases "m \<in> set (columns d)")
  case False
  with assms(1) show ?thesis by (simp add: loc0_def)
next
  case True
  from assms(2) obtain r rs where rows: "rows d = r # rs"
    by (cases "rows d") (auto simp: df_empty_def)
  with assms(3) have "length r = length (columns d)"
    by (simp add: wf_dataframe_def)
  with True have "map_of (zip (columns d) r) m \<noteq> None"
    by (metis map_of_zip_is_None)
  with assms(1) True rows show ?thesis
    by (auto simp: loc0_def series_getitem_def row_series_def split: option.splits)
qed

text \<open>
  Claim C6. When a template that is not empty has a placeholder whose name (the text
  between the braces without the whitespace around it, which is what the formatter
  looks up) is no field of the row, formatting the row fails with the \<^verbatim>\<open>KeyError\<close> of a
  missing name; the preview of a well-formed frame with data fails in the same way
  when the name is no column. No message is returned.
\<close>

theorem missing_field_fails:
  assumes "t \<noteq> []" and "n \<in> set (variable_names t)"
  shows "(map_of row n = None \<longrightarrow>
            (\<exists>m \<in> set (variable_names t). map_of row m = None
               \<and> format_message row (Some t) = Inl (KeyError (StrKey m))))
     \<and> (n \<notin> set (columns d) \<and> \<not> df_empty d \<and> wf_dataframe d \<longrightarrow>
            (\<exists>m \<in> set (variable_names t). m \<notin> set (columns d)
               \<and> format_preview_message (Some t) (Some d) = Inl (KeyError (StrKey m))))"
proof (intro conjI impI)
  assume "map_of row n = None"
  then have "var_value (Series row) n = Inl (KeyError (StrKey n))"
    by (simp add: series_getitem_def)
  from substitute_missing[OF assms(2) this, of t]
  obtain m k where m: "m \<in> set (variable_names t)" "var_value (Series row) m = Inl (KeyError k)"
      "substitute (Series row) (variable_names t) t = Inl (KeyError k)"
    by blast
  from series_missing[OF m(2)] m assms(1)
  show "\<exists>m \<in> set (variable_names t). map_of row m = None
          \<and> format_message row (Some t) = Inl (KeyError (StrKey m))"
    by (auto simp: format_message_def format_message_base_def)
next
  assume a: "n \<notin> set (columns d) \<and> \<not> df_empty d \<and> wf_dataframe d"
  then have "var_value (DataFrame d) n = Inl (KeyError (StrKey n))"
    by (simp add: loc0_def)
  from substitute_missing[OF assms(2) this, of t]
  obtain m k where m: "m \<in> set (variable_names t)" "var_value (DataFrame d) m = Inl (KeyError k)"
      "substitute (DataFrame d) (variable_names t) t = Inl (KeyError k)"
    by blast
  from frame_missing[OF m(2)] a m assms(1)
  show "\<exists>m \<in> set (variable_names t). m \<notin> set (columns d)
          \<and> format_preview_message (Some t) (Some d) = Inl (KeyError (StrKey m))"
    by (auto simp: format_preview_message_def validate_dataframe_def format_message_base_def)
qed

theorem missing_field_fails_witness:
  "''Hi { name }, {code}'' \<noteq> [] \<and> ''code'' \<in> set (variable_names ''Hi { name }, {code}'')
   \<and> map_of [(''name'', StrV ''Ana'')] ''code'' = None
   \<and> format_message [(''name'', StrV ''Ana'')] (Some ''Hi { name }, {code}'')
       = Inl (KeyError (StrKey ''code''))
   \<and> ''code'' \<notin> set (columns \<lparr>columns = [''name''], rows = [[StrV ''Ana'']]\<rparr>)
   \<and> \<not> df_empty \<lparr>columns = [''name''], rows = [[StrV ''Ana'']]\<rparr>
   \<and> wf_dataframe \<lparr>columns = [''name''], rows = [[StrV ''Ana'']]\<rparr>
   \<and> format_preview_message (Some ''Hi { name }, {code}'')
        (Some \<lparr>columns = [''name''], rows = [[StrV ''Ana'']]\<rparr>)
       = Inl (KeyError (StrKey ''code''))"
  using missing_field_fails[of "''Hi { name }, {code}''" "''code''" "[(''name'', StrV ''Ana'')]"
      "\<lparr>columns = [''name''], rows = [[StrV ''Ana'']]\<rparr>"]
  by (simp add: variable_names_def py_strip_def isspace_def Let_def df_empty_def wf_dataframe_def)

lemma substitute_present:
  "\<forall>n \<in> set vs. map_of row n \<noteq> None \<Longrightarrow>
   substitute (Series row) vs r = Inr (replace_in_order row vs r)"
  by (induction vs arbitrary: r) (auto simp: replace_in_order_def series_getitem_def)

section \<open>Placeholders written with whitespace\<close>

lemma token_Cons: "token n = CHR ''{'' # n @ [CHR ''}'']"
  by (simp add: token_def)

lemma token_not_Nil: "token n \<noteq> []"
  by (simp add: token_def)

lemma replace_scan_no_prefix:
  "old \<noteq> [] \<Longrightarrow> \<not> prefix old (c # cs) \<Longrightarrow>
   replace_scan old new (c # cs) = c # replace_scan old new cs"
  by (subst replace_scan.simps) simp

lemma replace_scan_prefix:
  "old \<noteq> [] \<Longrightarrow> replace_scan old new (old @ s) = new @ replace_scan old new s"
  by (subst replace_scan.simps) simp

lemma prefix_closed_eq:
  assumes "e \<notin> set a" and "e \<notin> set b" and "prefix (a @ [e]) (b @ e # ss)"
  shows "a = b"
proof -
  from assms(3) obtain z where z: "b @ e # ss = a @ e # z"
    by (auto simp: prefix_def)
  have "takeWhile (\<lambda>x. x \<noteq> e) (b @ e # ss) = b"
    using assms(2) by (subst takeWhile_append2) auto
  moreover have "takeWhile (\<lambda>x. x \<noteq> e) (a @ e # z) = a"
    using assms(1) by (subst takeWhile_append2) auto
  ultimately show ?thesis using z by simp
qed

lemma token_not_prefix_inside:
  assumes "CHR ''}'' \<notin> set n" and "CHR ''}'' \<notin> set raw" and "CHR ''{'' \<notin> set raw"
    and "n \<noteq> raw" and "w' \<noteq> []" and "suffix w' (token raw)"
  shows "\<not> prefix (token n) (w' @ ss)"
proof
  assume p: "prefix (token n) (w' @ ss)"
  from assms(5) obtain c cs where w': "w' = c # cs" by (cases w') auto
  with p have c: "c = CHR ''{''" by (simp add: token_Cons)
  from assms(6) have "w' = token raw \<or> suffix w' (raw @ [CHR ''}''])"
    by (simp add: token_Cons suffix_Cons)
  then show False
  proof
    assume "w' = token raw"
    with p have "prefix (n @ [CHR ''}'']) (raw @ CHR ''}'' # ss)"
      by (simp add: token_Cons)
    from prefix_closed_eq[OF assms(1,2) this] assms(4) show False by simp
  next
    assume "suffix w' (raw @ [CHR ''}''])"
    then have "set w' \<subseteq> set (raw @ [CHR ''}''])"
      by (rule set_mono_suffix)
    with w' c assms(3) show False by auto
  qed
qed

lemma token_suffix_not_prefix:
  assumes "CHR ''}'' \<notin> set n" and "CHR ''}'' \<notin> set raw" and "CHR ''{'' \<notin> set raw"
    and "CHR ''{'' \<notin> set n" and "n \<noteq> raw" and "x \<noteq> []" and "suffix x (token n)"
  shows "\<not> prefix x (token raw @ ss)"
proof
  assume p: "prefix x (token raw @ ss)"
  from assms(6) obtain c cs where x: "x = c # cs" by (cases x) auto
  with p have c: "c = CHR ''{''" by (simp add: token_Cons)
  from assms(7) have "x = token n \<or> suffix x (n @ [CHR ''}''])"
    by (simp add: token_Cons suffix_Cons)
  then show False
  proof
    assume "x = token n"
    with p have "prefix (token n) (token raw @ ss)" by simp
    moreover have "\<not> prefix (token n) (token raw @ ss)"
      by (rule token_not_prefix_inside[OF assms(1,2,3,5)]) (simp_all add: token_Cons)
    ultimately show False by simp
  next
    assume "suffix x (n @ [CHR ''}''])"
    then have "set x \<subseteq> set (n @ [CHR ''}''])"
      by (rule set_mono_suffix)
    with x c assms(4) show False by auto
  qed
qed

lemma replace_scan_through:
  assumes "CHR ''}'' \<notin> set n" and "CHR ''}'' \<notin> set raw" and "CHR ''{'' \<notin> set raw"
    and "n \<noteq> raw"
  shows "suffix w' (token raw) \<Longrightarrow>
         replace_scan (token n) new (w' @ ss) = w' @ replace_scan (token n) new ss"
proof (induction w')
  case Nil
  show ?case by simp
next
  case (Cons c cs)
  have np: "\<not> prefix (token n) ((c # cs) @ ss)"
    by (rule token_not_prefix_inside[OF assms _ Cons.prems]) simp
  have "suffix cs (token raw)"
    using Cons.prems by (rule suffix_ConsD)
  from Cons.IH[OF this] replace_scan_no_prefix[OF token_not_Nil, of n c "cs @ ss" new] np
  show ?case by simp
qed

lemma replace_scan_keeps:
  assumes "CHR ''}'' \<notin> set n" and "CHR ''}'' \<notin> set raw" and "CHR ''{'' \<notin> set raw"
    and "CHR ''{'' \<notin> set n" and "n \<noteq> raw"
  shows "sublist (token raw) (replace_scan (token n) new (ps @ token raw @ ss))"
proof (induction "length ps" arbitrary: ps rule: less_induct)
  case less
  show ?case
  proof (cases ps)
    case Nil
    have "replace_scan (token n) new (token raw @ ss) = token raw @ replace_scan (token n) new ss"
      by (rule replace_scan_through[OF assms(1,2,3,5)]) simp
    with Nil show ?thesis by simp
  next
    case (Cons c ps')
    show ?thesis
    proof (cases "prefix (token n) (ps @ token raw @ ss)")
      case True
      then have "prefix (token n) ps
          \<or> (\<exists>us. token n = ps @ us \<and> prefix us (token raw @ ss))"
        by (simp only: prefix_append)
      then consider "prefix (token n) ps"
        | us where "token n = ps @ us" "us \<noteq> []" "prefix us (token raw @ ss)"
        by (metis append.right_neutral prefix_order.refl)
      then show ?thesis
      proof cases
        case 1
        then obtain ps'' where ps: "ps = token n @ ps''"
          by (auto simp: prefix_def)
        then have "length ps'' < length ps"
          by (simp add: token_Cons)
        from less[OF this]
        have "sublist (token raw) (new @ replace_scan (token n) new (ps'' @ token raw @ ss))"
          by (meson sublist_append)
        moreover have "replace_scan (token n) new (ps @ token raw @ ss)
            = new @ replace_scan (token n) new (ps'' @ token raw @ ss)"
          using replace_scan_prefix[OF token_not_Nil, of n new "ps'' @ token raw @ ss"]
          by (simp add: ps)
        ultimately show ?thesis by simp
      next
        case 2
        from 2(1) have "suffix us (token n)"
          by (simp add: suffix_def)
        from token_suffix_not_prefix[OF assms 2(2) this] 2(3) show ?thesis
          by simp
      qed
    next
      case False
      have "length ps' < length ps" using Cons by simp
      from less[OF this] have "sublist (token raw) (c # replace_scan (token n) new (ps' @ token raw @ ss))"
        by (simp add: sublist_Cons_right)
      moreover have "replace_scan (token n) new (ps @ token raw @ ss)
            = c # replace_scan (token n) new (ps' @ token raw @ ss)"
        using False replace_scan_no_prefix[OF token_not_Nil, of n c "ps' @ token raw @ ss" new]
        by (simp add: Cons)
      ultimately show ?thesis by simp
    qed
  qed
qed

lemma py_strip_idem: "py_strip (py_strip s) = py_strip s"
proof -
  define a where "a = dropWhile isspace s"
  define b where "b = rev (dropWhile isspace (rev a))"
  have b: "py_strip s = b"
    by (simp add: py_strip_def a_def b_def)
  have "b @ rev (takeWhile isspace (rev a))
      = rev (takeWhile isspace (rev a) @ dropWhile isspace (rev a))"
    by (simp only: b_def rev_append)
  also have "\<dots> = a"
    by (simp only: takeWhile_dropWhile_id rev_rev_ident)
  finally have ab: "a = b @ rev (takeWhile isspace (rev a))"
    by (rule sym)
  have "dropWhile isspace b = b"
  proof (cases "b = []")
    case True
    then show ?thesis by simp
  next
    case False
    with ab have "hd b = hd a" and "a \<noteq> []"
      by (metis hd_append2, metis append_is_Nil_conv)
    moreover from \<open>a \<noteq> []\<close> have "\<not> isspace (hd a)"
      unfolding a_def by (rule hd_dropWhile)
    ultimately show ?thesis
      using False by (simp add: dropWhile_eq_self_iff)
  qed
  moreover have "dropWhile isspace (rev b) = rev b"
    by (simp add: b_def)
  ultimately have "py_strip b = b"
    by (simp add: py_strip_def)
  with b show ?thesis by simp
qed

lemma set_py_strip: "set (py_strip s) \<subseteq> set s"
proof
  fix x assume "x \<in> set (py_strip s)"
  then have "x \<in> set (dropWhile isspace (rev (dropWhile isspace s)))"
    by (simp add: py_strip_def)
  then have "x \<in> set (rev (dropWhile isspace s))"
    by (rule set_dropWhileD)
  then have "x \<in> set (dropWhile isspace s)" by simp
  then show "x \<in> set s" by (rule set_dropWhileD)
qed

lemma substitute_keeps:
  assumes "CHR ''}'' \<notin> set raw" and "CHR ''{'' \<notin> set raw"
  shows "\<forall>v \<in> set vs. CHR ''}'' \<notin> set v \<and> CHR ''{'' \<notin> set v \<and> v \<noteq> raw \<Longrightarrow>
         sublist (token raw) r \<Longrightarrow> substitute d vs r = Inr out \<Longrightarrow> sublist (token raw) out"
proof (induction vs arbitrary: r)
  case Nil
  then show ?case by simp
next
  case (Cons v vs)
  from Cons.prems(3) obtain x where x: "var_value d v = Inr x"
    and rest: "substitute d vs (py_replace r (token v) (py_str x)) = Inr out"
    by (auto split: sum.splits)
  from Cons.prems(2) obtain ps ss where r: "r = ps @ token raw @ ss"
    by (auto simp: sublist_def)
  from Cons.prems(1) have v: "CHR ''}'' \<notin> set v" "CHR ''{'' \<notin> set v" "v \<noteq> raw"
    by simp_all
  have "sublist (token raw) (replace_scan (token v) (py_str x) (ps @ token raw @ ss))"
    by (rule replace_scan_keeps[OF v(1) assms v(2,3)])
  then have "sublist (token raw) (py_replace r (token v) (py_str x))"
    by (simp add: py_replace_def token_not_Nil r)
  moreover from Cons.prems(1) have "\<forall>v \<in> set vs. CHR ''}'' \<notin> set v \<and> CHR ''{'' \<notin> set v \<and> v \<noteq> raw"
    by simp
  ultimately show ?case
    using Cons.IH rest by blast
qed

text \<open>
  Claim C4, as amended. When a placeholder is written with whitespace at an end of the
  text between its braces, and no placeholder of the template has an opening brace in
  that text, the formatter looks up the name without the whitespace: it fails with a
  \<^verbatim>\<open>KeyError\<close> when that name is no field of the row, and when it returns a message
  the placeholder as written still stands in it.
\<close>

theorem spaced_placeholder_stays:
  assumes "t \<noteq> []" and "raw \<in> set (placeholders t)" and "py_strip raw \<noteq> raw"
    and "\<forall>p \<in> set (placeholders t). CHR ''{'' \<notin> set p"
  shows "(map_of row (py_strip raw) = None \<longrightarrow> (\<exists>k. format_message row (Some t) = Inl (KeyError k)))
     \<and> (\<forall>out. format_message row (Some t) = Inr out \<longrightarrow>
           map_of row (py_strip raw) \<noteq> None \<and> sublist (token raw) out)"
proof -
  have in_names: "py_strip raw \<in> set (variable_names t)"
    using assms(2) by (simp add: variable_names_def)
  have fails: "\<exists>k. format_message row (Some t) = Inl (KeyError k)" if "map_of row (py_strip raw) = None"
  proof -
    from that have "var_value (Series row) (py_strip raw) = Inl (KeyError (StrKey (py_strip raw)))"
      by (simp add: series_getitem_def)
    from substitute_missing[OF in_names this, of t] assms(1) show ?thesis
      by (auto simp: format_message_def format_message_base_def)
  qed
  have stays: "sublist (token raw) out" if out: "format_message row (Some t) = Inr out" for out
  proof -
    from placeholders_sound[OF assms(2)] have raw: "CHR ''}'' \<notin> set raw" "sublist (token raw) t"
      by simp_all
    from assms(2,4) have raw_open: "CHR ''{'' \<notin> set raw" by blast
    have names: "\<forall>v \<in> set (variable_names t). CHR ''}'' \<notin> set v \<and> CHR ''{'' \<notin> set v \<and> v \<noteq> raw"
    proof
      fix v assume "v \<in> set (variable_names t)"
      then obtain p where p: "p \<in> set (placeholders t)" "v = py_strip p"
        by (auto simp: variable_names_def)
      from placeholders_sound[OF p(1)] have "CHR ''}'' \<notin> set p" by simp
      moreover from p(1) assms(4) have "CHR ''{'' \<notin> set p" by blast
      moreover have "set v \<subseteq> set p"
        unfolding p(2) by (rule set_py_strip)
      moreover have "v \<noteq> raw"
      proof
        assume "v = raw"
        with p(2) have "py_strip p = raw" by simp
        with py_strip_idem[of p] have "py_strip raw = raw" by simp
        with assms(3) show False by simp
      qed
      ultimately show "CHR ''}'' \<notin> set v \<and> CHR ''{'' \<notin> set v \<and> v \<noteq> raw"
        by blast
    qed
    from out assms(1) have "substitute (Series row) (variable_names t) t = Inr out"
      by (simp add: format_message_def format_message_base_def)
    from substitute_keeps[OF raw(1) raw_open names raw(2) this] show ?thesis .
  qed
  from fails stays show ?thesis
    by (metis Inl_Inr_False)
qed

theorem spaced_placeholder_stays_witness:
  "''Hi { name }'' \<noteq> [] \<and> placeholders ''Hi { name }'' = ['' name '']
   \<and> py_strip '' name '' = ''name'' \<and> CHR ''{'' \<notin> set '' name ''
   \<and> format_message [(''name'', StrV ''Ana'')] (Some ''Hi { name }'') = Inr ''Hi { name }''
   \<and> map_of [(''name'', StrV ''Ana'')] (py_strip '' name '') = Some (StrV ''Ana'')
   \<and> sublist (token '' name '') ''Hi { name }''
   \<and> map_of [(''nombre'', StrV ''Ana'')] (py_strip '' name '') = None
   \<and> format_message [(''nombre'', StrV ''Ana'')] (Some ''Hi { name }'') = Inl (KeyError (StrKey ''name''))"
  using spaced_placeholder_stays[of "''Hi { name }''" "'' name ''" "[(''name'', StrV ''Ana'')]"]
    spaced_placeholder_stays[of "''Hi { name }''" "'' name ''" "[(''nombre'', StrV ''Ana'')]"]
  by (simp add: format_message_def format_message_base_def variable_names_def py_strip_def
      isspace_def Let_def series_getitem_def token_def py_replace_def replace_scan.simps)

text \<open>
  Claim C4 as stated fails when the text between the braces holds an opening brace:
  in \<^verbatim>\<open>"{b}{ {b}"\<close> the second placeholder is \<^verbatim>\<open>" {b"\<close>, and the replacement of
  \<^verbatim>\<open>"{b}"\<close> changes its text.
\<close>

theorem spaced_placeholder_counterexample:
  "'' {b'' \<in> set (placeholders ''{b}{ {b}'') \<and> py_strip '' {b'' \<noteq> '' {b''
   \<and> format_message [(''b'', StrV ''v''), (''{b'', StrV ''w'')] (Some ''{b}{ {b}'') = Inr ''v{ v''
   \<and> \<not> sublist ''{ {b}'' ''v{ v''"
  by (simp add: format_message_def format_message_base_def variable_names_def py_strip_def
      isspace_def Let_def series_getitem_def token_def py_replace_def replace_scan.simps
      sublist_Cons_right)

section \<open>The send handler\<close>

lemma apply_format_message_ok:
  "apply_format_message d t rs = Inr ms \<Longrightarrow>
   length ms = length rs \<and> (\<forall>i < length rs. format_message (row_series d (rs ! i)) t = Inr (ms ! i))"
proof (induction rs arbitrary: ms)
  case Nil
  then show ?case by simp
next
  case (Cons r rs)
  from Cons.prems obtain m ms' where m: "format_message (row_series d r) t = Inr m"
    and ms': "apply_format_message d t rs = Inr ms'" and ms: "ms = m # ms'"
    by (auto split: sum.splits)
  from Cons.IH[OF ms'] m ms show ?case
    by (auto simp: nth_Cons split: nat.splits)
qed


lemma send_rows_trace:
  "\<exists>es. trace (snd (send_rows send rs c st)) = trace st @ es \<and> CheckLogin \<notin> set es"
proof (induction rs arbitrary: c st)
  case Nil
  show ?case by simp
next
  case (Cons r rs)
  show ?case
  proof (cases "series_getitem r ''numero''")
    case (Inl e)
    then show ?thesis by simp
  next
    case phone: (Inr phone)
    show ?thesis
    proof (cases "series_getitem r ''formatted_message''")
      case (Inl e)
      with phone show ?thesis by simp
    next
      case (Inr message)
      show ?thesis
      proof (cases "send c")
        case False
        with phone Inr show ?thesis by (simp add: Let_def)
      next
        case True
        obtain es where "trace (snd (send_rows send rs (Suc c)
            (st\<lparr>trace := trace st @ [SendWhatsappMessage phone message],
                messages_sent := Suc (messages_sent st)\<rparr>)))
           = (trace st @ [SendWhatsappMessage phone message]) @ es" "CheckLogin \<notin> set es"
          using Cons.IH[of "Suc c" "st\<lparr>trace := trace st @ [SendWhatsappMessage phone message],
                messages_sent := Suc (messages_sent st)\<rparr>"] by auto
        with phone Inr True show ?thesis by (simp add: Let_def)
      qed
    qed
  qed
qed

lemma send_rows_failure:
  "k < length rs \<Longrightarrow>
   \<forall>r \<in> set (take (Suc k) rs). map_of r ''numero'' \<noteq> None \<and> map_of r ''formatted_message'' \<noteq> None \<Longrightarrow>
   \<forall>i < k. send (c + i) \<Longrightarrow> \<not> send (c + k) \<Longrightarrow>
   send_rows send rs c st =
     (SendFailed (the (map_of (rs ! k) ''numero'')),
      st\<lparr>trace := trace st @ map send_event (take (Suc k) rs),
         messages_sent := messages_sent st + k\<rparr>)"
proof (induction rs arbitrary: k c st)
  case Nil
  then show ?case by simp
next
  case (Cons r rs)
  from Cons.prems(2) obtain phone message where
    look: "map_of r ''numero'' = Some phone" "map_of r ''formatted_message'' = Some message"
    by auto
  show ?case
  proof (cases k)
    case 0
    with Cons.prems(4) look show ?thesis
      by (simp add: series_getitem_def except_block_def send_event_def Let_def)
  next
    case (Suc j)
    with Cons.prems have j: "j < length rs"
      "\<forall>r \<in> set (take (Suc j) rs). map_of r ''numero'' \<noteq> None \<and> map_of r ''formatted_message'' \<noteq> None"
      "\<forall>i < j. send (Suc c + i)" "\<not> send (Suc c + j)"
      by auto
    from Suc Cons.prems(3) have "send c" by (metis add.right_neutral zero_less_Suc)
    with look Suc Cons.IH[OF j] show ?thesis
      by (simp add: series_getitem_def send_event_def Let_def)
  qed
qed

lemma send_rows_success:
  "\<forall>r \<in> set rs. map_of r ''numero'' \<noteq> None \<and> map_of r ''formatted_message'' \<noteq> None \<Longrightarrow>
   \<forall>i < length rs. send (c + i) \<Longrightarrow>
   send_rows send rs c st =
     (Completed,
      st\<lparr>trace := trace st @ map send_event rs,
         messages_sent := messages_sent st + length rs\<rparr>)"
proof (induction rs arbitrary: c st)
  case Nil
  then show ?case by simp
next
  case (Cons r rs)
  from Cons.prems(1) obtain phone message where
    look: "map_of r ''numero'' = Some phone" "map_of r ''formatted_message'' = Some message"
    by auto
  from Cons.prems have j:
    "\<forall>r \<in> set rs. map_of r ''numero'' \<noteq> None \<and> map_of r ''formatted_message'' \<noteq> None"
    "\<forall>i < length rs. send (Suc c + i)"
    by auto
  from Cons.prems(2) have "send c" by (metis add.right_neutral length_greater_0_conv list.distinct(1))
  with look Cons.IH[OF j] show ?case
    by (simp add: series_getitem_def send_event_def Let_def)
qed

lemma map2_replace_absent:
  "length cs = length xs \<Longrightarrow> name \<notin> set cs \<Longrightarrow>
   map (\<lambda>(c, x). if c = name then v else x) (zip cs xs) = xs"
  by (induction cs xs rule: list_induct2) auto

lemma map_of_zip_replace:
  "length cols = length r \<Longrightarrow> name \<in> set cols \<Longrightarrow>
   map_of (zip cols (map (\<lambda>(c, x). if c = name then v else x) (zip cols r)))
     = (map_of (zip cols r))(name \<mapsto> v)"
proof (induction cols r rule: list_induct2)
  case Nil
  then show ?case by simp
next
  case (Cons c cs x xs)
  show ?case
  proof (cases "name \<in> set cs")
    case True
    with Cons.IH show ?thesis by (auto simp: fun_upd_twist)
  next
    case False
    with Cons.prems have c: "c = name" by simp
    have "map (\<lambda>(c, x). if c = name then v else x) (zip cs xs) = xs"
      using Cons.hyps False by (rule map2_replace_absent)
    with c show ?thesis by (auto simp: fun_eq_iff)
  qed
qed

lemma map_of_set_column_row:
  assumes "length r = length (columns d)"
  shows "map_of (zip (columns (set_column d name vals))
            (if name \<in> set (columns d)
             then map (\<lambda>(c, x). if c = name then v else x) (zip (columns d) r)
             else r @ [v]))
         = (map_of (zip (columns d) r))(name \<mapsto> v)"
proof (cases "name \<in> set (columns d)")
  case True
  with assms show ?thesis
    by (simp add: set_column_def map_of_zip_replace)
next
  case False
  have none: "map_of (zip (columns d) r) x = None \<longleftrightarrow> x \<notin> set (columns d)" for x
    using assms by (simp add: map_of_zip_is_None)
  have "map_of (zip (columns d @ [name]) (r @ [v])) x = ((map_of (zip (columns d) r))(name \<mapsto> v)) x" for x
  proof (cases "map_of (zip (columns d) r) x")
    case None
    with assms show ?thesis
      by (cases "x = name") (simp_all add: map_add_def del: map_of_zip_is_None)
  next
    case (Some y)
    with none[of x] False have "x \<noteq> name" by auto
    with Some assms show ?thesis by (simp add: map_add_def)
  qed
  with False show ?thesis
    by (auto simp: set_column_def)
qed

lemmas run_defs = handle_send_messages_def format_all_def set_column_def format_message_def
  format_message_base_def variable_names_def py_strip_def isspace_def Let_def series_getitem_def
  token_def py_replace_def replace_scan.simps row_series_def check_login_whatsapp_def
  except_block_def sample_frame_def sample_ui_def sample_world_def login_instruction_def

text \<open>
  Claim C8. In every run the first call that reaches the browser, if there is one, is
  the login check. When the login check raises \<^verbatim>\<open>NotLoggedInException\<close>, no message is
  sent to any recipient, and a run that reached the check (both validations passed and
  the table was formatted) ends after it with the instruction to log in shown.
\<close>

theorem login_checked_before_sending:
  "(events (handle_send_messages w u) = [] \<or> hd (events (handle_send_messages w u)) = CheckLogin)
   \<and> (check_login_whatsapp (locateOnScreen w) = Inl e \<longrightarrow>
        (\<forall>phone message. SendWhatsappMessage phone message \<notin> set (events (handle_send_messages w u)))
        \<and> sent (handle_send_messages w u) = 0
        \<and> (check_selector_template w \<and> check_upload_file w
             \<and> format_all (df u) (txf_area_msg u) = Inr d \<longrightarrow>
            events (handle_send_messages w u) = [CheckLogin]
            \<and> txf_result (ui (handle_send_messages w u)) = Text login_instruction
            \<and> raised (handle_send_messages w u) = None))"
proof -
  have first: "events (handle_send_messages w u) = [] \<or> hd (events (handle_send_messages w u)) = CheckLogin"
  proof (cases "format_all (df u) (txf_area_msg u)")
    case (Inl e)
    then show ?thesis by (simp add: handle_send_messages_def)
  next
    case (Inr d')
    obtain x st where run: "send_rows (sendwhatmsg_instantly w) (map (row_series d') (rows d')) 0
        \<lparr>trace = [CheckLogin], messages_sent = 0\<rparr> = (x, st)"
      by (cases "send_rows (sendwhatmsg_instantly w) (map (row_series d') (rows d')) 0
        \<lparr>trace = [CheckLogin], messages_sent = 0\<rparr>") auto
    from send_rows_trace[of "sendwhatmsg_instantly w" "map (row_series d') (rows d')" 0
        "\<lparr>trace = [CheckLogin], messages_sent = 0\<rparr>"] run
    obtain es where "trace st = CheckLogin # es" by auto
    with Inr run show ?thesis
      by (auto simp: handle_send_messages_def Let_def split: sum.splits loop_exit.splits)
  qed
  have second: "check_login_whatsapp (locateOnScreen w) = Inl e \<longrightarrow>
        (\<forall>phone message. SendWhatsappMessage phone message \<notin> set (events (handle_send_messages w u)))
        \<and> sent (handle_send_messages w u) = 0
        \<and> (check_selector_template w \<and> check_upload_file w
             \<and> format_all (df u) (txf_area_msg u) = Inr d \<longrightarrow>
            events (handle_send_messages w u) = [CheckLogin]
            \<and> txf_result (ui (handle_send_messages w u)) = Text login_instruction
            \<and> raised (handle_send_messages w u) = None)"
    by (auto simp: handle_send_messages_def Let_def split: sum.splits)
  from first second show ?thesis by blast
qed

theorem login_checked_before_sending_witness:
  "check_login_whatsapp (locateOnScreen (sample_world Located (\<lambda>n. True)))
     = Inl (NotLoggedInException ''Not logged in at WhatsApp Web'')
   \<and> check_selector_template (sample_world Located (\<lambda>n. True))
   \<and> check_upload_file (sample_world Located (\<lambda>n. True))
   \<and> format_all (df (sample_ui ''Hi {name}'')) (txf_area_msg (sample_ui ''Hi {name}''))
       = Inr \<lparr>columns = [''numero'', ''name'', ''formatted_message''],
              rows = [[StrV ''555'', StrV ''Ana'', StrV ''Hi Ana''],
                      [StrV ''666'', StrV ''Bo'', StrV ''Hi Bo''],
                      [StrV ''777'', StrV ''Cy'', StrV ''Hi Cy'']]\<rparr>
   \<and> events (handle_send_messages (sample_world Located (\<lambda>n. True)) (sample_ui ''Hi {name}''))
       = [CheckLogin]
   \<and> sent (handle_send_messages (sample_world Located (\<lambda>n. True)) (sample_ui ''Hi {name}'')) = 0
   \<and> txf_result (ui (handle_send_messages (sample_world Located (\<lambda>n. True)) (sample_ui ''Hi {name}'')))
       = Text login_instruction"
  using login_checked_before_sending[of "sample_world Located (\<lambda>n. True)" "sample_ui ''Hi {name}''"
      "NotLoggedInException ''Not logged in at WhatsApp Web''"
      "\<lparr>columns = [''numero'', ''name'', ''formatted_message''],
              rows = [[StrV ''555'', StrV ''Ana'', StrV ''Hi Ana''],
                      [StrV ''666'', StrV ''Bo'', StrV ''Hi Bo''],
                      [StrV ''777'', StrV ''Cy'', StrV ''Hi Cy'']]\<rparr>"]
  by (simp add: run_defs)

lemma set_column_recipient:
  assumes "wf_dataframe d" and "length vals = length (rows d)" and "i < length (rows d)"
  shows "length (rows (set_column d name vals)) = length (rows d)"
    and "map_of (row_series (set_column d name vals) (rows (set_column d name vals) ! i))
         = (map_of (row_series d (rows d ! i)))(name \<mapsto> vals ! i)"
proof -
  show "length (rows (set_column d name vals)) = length (rows d)"
    using assms(2) by (simp add: set_column_def)
  from assms(1,3) have len: "length (rows d ! i) = length (columns d)"
    by (simp add: wf_dataframe_def list_all_length)
  have "rows (set_column d name vals) ! i
      = (if name \<in> set (columns d)
         then map (\<lambda>(c, x). if c = name then vals ! i else x) (zip (columns d) (rows d ! i))
         else rows d ! i @ [vals ! i])"
    using assms(2,3) by (simp add: set_column_def)
  with map_of_set_column_row[OF len, of name vals "vals ! i"]
  show "map_of (row_series (set_column d name vals) (rows (set_column d name vals) ! i))
         = (map_of (row_series d (rows d ! i)))(name \<mapsto> vals ! i)"
    by (simp add: row_series_def)
qed

lemma take_as_map_nth: "n \<le> length xs \<Longrightarrow> map f (take n xs) = map (\<lambda>i. f (xs ! i)) [0..<n]"
  by (rule nth_equalityI) simp_all

lemma set_column_length:
  "length vals = length (rows d) \<Longrightarrow> length (rows (set_column d name vals)) = length (rows d)"
  by (simp add: set_column_def)

lemma formatted_recipients:
  assumes "wf_dataframe d" and "''numero'' \<in> set (columns d)"
    and "length ms = length (rows d)"
  defines "d' \<equiv> set_column d ''formatted_message'' (map StrV ms)"
  defines "rs \<equiv> map (row_series d') (rows d')"
  shows "length rs = length (rows d)"
    and "\<forall>r \<in> set rs. map_of r ''numero'' \<noteq> None \<and> map_of r ''formatted_message'' \<noteq> None"
    and "\<forall>i < length (rows d). send_event (rs ! i)
           = SendWhatsappMessage (the (map_of (row_series d (rows d ! i)) ''numero'')) (StrV (ms ! i))"
    and "\<forall>i < length (rows d). map_of (rs ! i) ''numero'' = map_of (row_series d (rows d ! i)) ''numero''"
proof -
  have vals: "length (map StrV ms) = length (rows d)"
    using assms(3) by simp
  show len: "length rs = length (rows d)"
    using set_column_length[OF vals] by (simp add: rs_def d'_def)
  have look: "map_of (rs ! i) = (map_of (row_series d (rows d ! i)))(''formatted_message'' \<mapsto> StrV (ms ! i))"
    if "i < length (rows d)" for i
    using set_column_recipient(2)[OF assms(1) vals that, of "''formatted_message''"]
      set_column_length[OF vals, of "''formatted_message''"] that assms(3)
    by (simp add: rs_def d'_def)
  have numero: "map_of (row_series d (rows d ! i)) ''numero'' \<noteq> None" if "i < length (rows d)" for i
  proof -
    from assms(1) that have "length (columns d) = length (rows d ! i)"
      by (simp add: wf_dataframe_def list_all_length)
    with assms(2) show ?thesis
      by (simp add: row_series_def map_of_zip_is_None)
  qed
  show "\<forall>r \<in> set rs. map_of r ''numero'' \<noteq> None \<and> map_of r ''formatted_message'' \<noteq> None"
  proof
    fix r assume "r \<in> set rs"
    then obtain i where i: "i < length rs" "r = rs ! i"
      by (auto simp: in_set_conv_nth)
    with len look[of i] numero[of i]
    show "map_of r ''numero'' \<noteq> None \<and> map_of r ''formatted_message'' \<noteq> None"
      by simp
  qed
  show "\<forall>i < length (rows d). send_event (rs ! i)
           = SendWhatsappMessage (the (map_of (row_series d (rows d ! i)) ''numero'')) (StrV (ms ! i))"
    using look by (simp add: send_event_def)
  show "\<forall>i < length (rows d). map_of (rs ! i) ''numero'' = map_of (row_series d (rows d ! i)) ''numero''"
    using look by simp
qed

text \<open>
  Claim C2, as amended. With both validations passed, a well-formed table that has the
  column \<^verbatim>\<open>numero\<close>, all rows formatted and the login check passed: when the send
  fails on the recipient at position k (from 0) and succeeded on all earlier ones, the
  calls to the browser are the login check and the sends to the recipients 0 to k in
  table order, none after k; k messages were sent; and what is shown is the error
  naming the number of recipient k, without the count. The count is shown only when
  every send succeeds.
\<close>

theorem send_failure_stops_batch:
  assumes "check_selector_template w" and "check_upload_file w" and "df u = Some d"
    and "wf_dataframe d" and "''numero'' \<in> set (columns d)"
    and "apply_format_message d (txf_area_msg u) (rows d) = Inr ms"
    and "check_login_whatsapp (locateOnScreen w) = Inr ()"
  shows "(k < length (rows d) \<and> (\<forall>i < k. sendwhatmsg_instantly w i) \<and> \<not> sendwhatmsg_instantly w k \<longrightarrow>
            events (handle_send_messages w u)
              = CheckLogin # map (\<lambda>i. SendWhatsappMessage
                                   (the (map_of (row_series d (rows d ! i)) ''numero'')) (StrV (ms ! i)))
                               [0..<Suc k]
            \<and> sent (handle_send_messages w u) = k
            \<and> raised (handle_send_messages w u) = None
            \<and> txf_result_op (ui (handle_send_messages w u))
                = Text (''Error with message to ''
                        @ py_str (the (map_of (row_series d (rows d ! k)) ''numero'')) @ ''.''))
     \<and> ((\<forall>i < length (rows d). sendwhatmsg_instantly w i) \<longrightarrow>
            sent (handle_send_messages w u) = length (rows d)
            \<and> txf_result_op (ui (handle_send_messages w u))
                = Text (''Messages sent successfully. ['' @ str_nat (length (rows d)) @ '']''))"
proof -
  define d' where "d' = set_column d ''formatted_message'' (map StrV ms)"
  define rs where "rs = map (row_series d') (rows d')"
  from apply_format_message_ok[OF assms(6)] have ms: "length ms = length (rows d)"
    by simp
  note rec = formatted_recipients[OF assms(4,5) ms, folded d'_def, folded rs_def]
  have fmt: "format_all (df u) (txf_area_msg u) = Inr d'"
    using assms(3,6) by (simp add: format_all_def d'_def)
  have run: "handle_send_messages w u =
      (case send_rows (sendwhatmsg_instantly w) rs 0 \<lparr>trace = [CheckLogin], messages_sent = 0\<rparr> of
         (Completed, st) \<Rightarrow>
           \<lparr>ui = (u\<lparr>df := Some d'\<rparr>)\<lparr>txf_result_op :=
                   Text (''Messages sent successfully. ['' @ str_nat (messages_sent st) @ '']'')\<rparr>,
            events = trace st, sent = messages_sent st, raised = None\<rparr>
       | (SendFailed numero, st) \<Rightarrow>
           \<lparr>ui = (u\<lparr>df := Some d'\<rparr>)\<lparr>txf_result_op :=
                   Text (''Error with message to '' @ py_str numero @ ''.'')\<rparr>,
            events = trace st, sent = messages_sent st, raised = None\<rparr>
       | (Uncaught e, st) \<Rightarrow>
           \<lparr>ui = u\<lparr>df := Some d'\<rparr>, events = trace st, sent = messages_sent st, raised = Some e\<rparr>)"
    using assms(1,2,7) fmt by (simp add: handle_send_messages_def rs_def Let_def)
  have fail: "events (handle_send_messages w u)
              = CheckLogin # map (\<lambda>i. SendWhatsappMessage
                                   (the (map_of (row_series d (rows d ! i)) ''numero'')) (StrV (ms ! i)))
                               [0..<Suc k]
            \<and> sent (handle_send_messages w u) = k
            \<and> raised (handle_send_messages w u) = None
            \<and> txf_result_op (ui (handle_send_messages w u))
                = Text (''Error with message to ''
                        @ py_str (the (map_of (row_series d (rows d ! k)) ''numero'')) @ ''.'')"
    if k: "k < length (rows d)" "\<forall>i < k. sendwhatmsg_instantly w i" "\<not> sendwhatmsg_instantly w k"
  proof -
    from k(1) rec(1) have krs: "k < length rs" by simp
    have fields: "\<forall>r \<in> set (take (Suc k) rs).
        map_of r ''numero'' \<noteq> None \<and> map_of r ''formatted_message'' \<noteq> None"
      using rec(2) by (meson in_set_takeD)
    have loop: "send_rows (sendwhatmsg_instantly w) rs 0 \<lparr>trace = [CheckLogin], messages_sent = 0\<rparr>
        = (SendFailed (the (map_of (rs ! k) ''numero'')),
           \<lparr>trace = [CheckLogin] @ map send_event (take (Suc k) rs), messages_sent = k\<rparr>)"
      using send_rows_failure[OF krs fields, of "sendwhatmsg_instantly w" 0
          "\<lparr>trace = [CheckLogin], messages_sent = 0\<rparr>"] k(2,3)
      by simp
    have "map send_event (take (Suc k) rs) = map (\<lambda>i. send_event (rs ! i)) [0..<Suc k]"
      using krs by (intro take_as_map_nth) simp
    also have "\<dots> = map (\<lambda>i. SendWhatsappMessage
                   (the (map_of (row_series d (rows d ! i)) ''numero'')) (StrV (ms ! i))) [0..<Suc k]"
      using rec(3) k(1) by (intro map_cong) auto
    finally have ev: "map send_event (take (Suc k) rs) = map (\<lambda>i. SendWhatsappMessage
                   (the (map_of (row_series d (rows d ! i)) ''numero'')) (StrV (ms ! i))) [0..<Suc k]" .
    from rec(4) k(1) have "map_of (rs ! k) ''numero'' = map_of (row_series d (rows d ! k)) ''numero''"
      by simp
    with run loop ev show ?thesis
      by simp
  qed
  have ok: "sent (handle_send_messages w u) = length (rows d)
            \<and> txf_result_op (ui (handle_send_messages w u))
                = Text (''Messages sent successfully. ['' @ str_nat (length (rows d)) @ '']'')"
    if all: "\<forall>i < length (rows d). sendwhatmsg_instantly w i"
  proof -
    have "send_rows (sendwhatmsg_instantly w) rs 0 \<lparr>trace = [CheckLogin], messages_sent = 0\<rparr>
        = (Completed, \<lparr>trace = [CheckLogin] @ map send_event rs, messages_sent = length rs\<rparr>)"
      using send_rows_success[OF rec(2), of "sendwhatmsg_instantly w" 0
          "\<lparr>trace = [CheckLogin], messages_sent = 0\<rparr>"] all rec(1)
      by simp
    with run rec(1) show ?thesis by simp
  qed
  from fail ok show ?thesis by blast
qed

theorem send_failure_stops_batch_witness:
  "check_selector_template (sample_world NotLocated (succeeds_before 1))
   \<and> check_upload_file (sample_world NotLocated (succeeds_before 1))
   \<and> df (sample_ui ''Hi {name}'') = Some sample_frame
   \<and> wf_dataframe sample_frame \<and> ''numero'' \<in> set (columns sample_frame)
   \<and> apply_format_message sample_frame (txf_area_msg (sample_ui ''Hi {name}'')) (rows sample_frame)
       = Inr [''Hi Ana'', ''Hi Bo'', ''Hi Cy'']
   \<and> check_login_whatsapp (locateOnScreen (sample_world NotLocated (succeeds_before 1))) = Inr ()
   \<and> (1::nat) < length (rows sample_frame)
   \<and> sendwhatmsg_instantly (sample_world NotLocated (succeeds_before 1)) 0
   \<and> \<not> sendwhatmsg_instantly (sample_world NotLocated (succeeds_before 1)) 1
   \<and> events (handle_send_messages (sample_world NotLocated (succeeds_before 1)) (sample_ui ''Hi {name}''))
       = [CheckLogin, SendWhatsappMessage (StrV ''555'') (StrV ''Hi Ana''),
          SendWhatsappMessage (StrV ''666'') (StrV ''Hi Bo'')]
   \<and> sent (handle_send_messages (sample_world NotLocated (succeeds_before 1)) (sample_ui ''Hi {name}'')) = 1
   \<and> txf_result_op (ui (handle_send_messages (sample_world NotLocated (succeeds_before 1)) (sample_ui ''Hi {name}'')))
       = Text ''Error with message to 666.''
   \<and> txf_result_op (ui (handle_send_messages (sample_world NotLocated (\<lambda>n. True)) (sample_ui ''Hi {name}'')))
       = Text ''Messages sent successfully. [3]''"
  using send_failure_stops_batch[of "sample_world NotLocated (succeeds_before 1)" "sample_ui ''Hi {name}''"
      sample_frame "[''Hi Ana'', ''Hi Bo'', ''Hi Cy'']" 1]
    send_failure_stops_batch[of "sample_world NotLocated (\<lambda>n. True)" "sample_ui ''Hi {name}''"
      sample_frame "[''Hi Ana'', ''Hi Bo'', ''Hi Cy'']" 1]
  by (simp add: run_defs succeeds_before_def wf_dataframe_def str_nat.simps digit_char_def)

text \<open>
  Claim C2 as stated fails in what is shown: with three recipients and a failure on
  the second, one message was sent, and the text shown names the number 666 and holds
  no count.
\<close>

theorem send_failure_count_counterexample:
  "sendwhatmsg_instantly (sample_world NotLocated (succeeds_before 1)) 0
   \<and> \<not> sendwhatmsg_instantly (sample_world NotLocated (succeeds_before 1)) 1
   \<and> sent (handle_send_messages (sample_world NotLocated (succeeds_before 1)) (sample_ui ''Hi {name}'')) = 1
   \<and> txf_result_op (ui (handle_send_messages (sample_world NotLocated (succeeds_before 1)) (sample_ui ''Hi {name}'')))
       = Text ''Error with message to 666.''
   \<and> txf_result (ui (handle_send_messages (sample_world NotLocated (succeeds_before 1)) (sample_ui ''Hi {name}'')))
       = Text []
   \<and> CHR ''1'' \<notin> set ''Error with message to 666.''"
  by (simp add: run_defs succeeds_before_def)

section \<open>The preview\<close>

lemma var_value_first_row:
  assumes "wf_dataframe d" and "\<not> df_empty d" and "i < length (columns d)"
  shows "var_value (DataFrame d) (columns d ! i) = Inr (hd (rows d) ! i)"
proof -
  from assms(2) obtain r rs where rows: "rows d = r # rs"
    by (cases "rows d") (auto simp: df_empty_def)
  with assms(1) have len: "length (columns d) = length r" and dist: "distinct (columns d)"
    by (simp_all add: wf_dataframe_def)
  from assms(3) len have "i < length r" by simp
  with len dist have "map_of (zip (columns d) r) (columns d ! i) = Some (r ! i)"
    by (rule map_of_zip_nth)
  with rows assms(3) show ?thesis
    by (simp add: loc0_def series_getitem_def row_series_def)
qed

lemma preview_first_row_explicit:
  assumes "wf_dataframe d" and "\<not> df_empty d" and "m \<noteq> []"
    and "set (variable_names m) \<subseteq> set (columns d)"
  shows "format_preview_message (Some m) (Some d)
         = Inr (replace_in_order (zip (columns d) (hd (rows d))) (variable_names m) m)"
proof -
  from assms(2) obtain r rs where rows: "rows d = r # rs"
    by (cases "rows d") (auto simp: df_empty_def)
  with assms(1) have len: "length (columns d) = length r"
    by (simp add: wf_dataframe_def)
  have "\<forall>n \<in> set (variable_names m). map_of (zip (columns d) r) n \<noteq> None"
    using assms(4) len by (auto simp: map_of_zip_is_None)
  then have "substitute (Series (zip (columns d) r)) (variable_names m) m
      = Inr (replace_in_order (zip (columns d) r) (variable_names m) m)"
    by (rule substitute_present)
  with rows assms(2,3) show ?thesis
    by (simp add: format_preview_message_def validate_dataframe_def format_message_base_def
        substitute_first_row row_series_def)
qed

text \<open>
  Claim C5. In the preview, on a frame that passes validation, every placeholder is
  resolved in the first row: the preview is the formatting of that row alone; on a
  well-formed frame the value found for the column at position i is the cell at
  position i of the first row, and when every name is a column the preview is the
  template with the first row's values put in, in extraction order. Hence two frames
  with the same columns and the same first row give the same preview, whatever the
  other rows are.
\<close>

theorem preview_uses_first_row:
  assumes "\<not> df_empty d1"
  shows "format_preview_message t (Some d1) = format_message (row_series d1 (hd (rows d1))) t
     \<and> (wf_dataframe d1 \<longrightarrow>
          (\<forall>i < length (columns d1).
             var_value (DataFrame d1) (columns d1 ! i) = Inr (hd (rows d1) ! i)))
     \<and> (wf_dataframe d1 \<and> m \<noteq> [] \<and> set (variable_names m) \<subseteq> set (columns d1) \<longrightarrow>
          format_preview_message (Some m) (Some d1)
            = Inr (replace_in_order (zip (columns d1) (hd (rows d1))) (variable_names m) m))
     \<and> (\<not> df_empty d2 \<and> columns d2 = columns d1 \<and> hd (rows d2) = hd (rows d1)
          \<longrightarrow> format_preview_message t (Some d2) = format_preview_message t (Some d1))"
proof -
  have one: "format_preview_message t (Some d) = format_message (row_series d (hd (rows d))) t"
    if "\<not> df_empty d" for d
    using that
    by (auto simp: format_preview_message_def validate_dataframe_def format_message_def
        format_message_base_def df_empty_def substitute_first_row split: option.splits)
  have two: "format_preview_message t (Some d2) = format_preview_message t (Some d1)"
    if "\<not> df_empty d2" "columns d2 = columns d1" "hd (rows d2) = hd (rows d1)"
    using that assms by (simp add: one row_series_def)
  from one[OF assms] two var_value_first_row[OF _ assms] preview_first_row_explicit[OF _ assms]
  show ?thesis by blast
qed

theorem preview_uses_first_row_witness:
  "\<not> df_empty \<lparr>columns = [''numero'', ''name''], rows = [[StrV ''555'', StrV ''Ana''], [StrV ''666'', StrV ''Bo'']]\<rparr>
   \<and> wf_dataframe \<lparr>columns = [''numero'', ''name''], rows = [[StrV ''555'', StrV ''Ana''], [StrV ''666'', StrV ''Bo'']]\<rparr>
   \<and> var_value (DataFrame \<lparr>columns = [''numero'', ''name''],
          rows = [[StrV ''555'', StrV ''Ana''], [StrV ''666'', StrV ''Bo'']]\<rparr>) ''name'' = Inr (StrV ''Ana'')
   \<and> variable_names ''Hi {name}'' = [''name'']
   \<and> format_preview_message (Some ''Hi {name}'')
        (Some \<lparr>columns = [''numero'', ''name''], rows = [[StrV ''555'', StrV ''Ana''], [StrV ''666'', StrV ''Bo'']]\<rparr>)
       = Inr ''Hi Ana''
   \<and> \<not> df_empty \<lparr>columns = [''numero'', ''name''],
          rows = [[StrV ''555'', StrV ''Ana''], [StrV ''777'', StrV ''Cy''], [StrV ''888'', StrV ''Di'']]\<rparr>
   \<and> format_preview_message (Some ''Hi {name}'')
        (Some \<lparr>columns = [''numero'', ''name''],
          rows = [[StrV ''555'', StrV ''Ana''], [StrV ''777'', StrV ''Cy''], [StrV ''888'', StrV ''Di'']]\<rparr>)
     = format_preview_message (Some ''Hi {name}'')
        (Some \<lparr>columns = [''numero'', ''name''], rows = [[StrV ''555'', StrV ''Ana''], [StrV ''666'', StrV ''Bo'']]\<rparr>)"
proof -
  let ?d1 = "\<lparr>columns = [''numero'', ''name''],
      rows = [[StrV ''555'', StrV ''Ana''], [StrV ''666'', StrV ''Bo'']]\<rparr>"
  let ?d2 = "\<lparr>columns = [''numero'', ''name''],
      rows = [[StrV ''555'', StrV ''Ana''], [StrV ''777'', StrV ''Cy''], [StrV ''888'', StrV ''Di'']]\<rparr>"
  have d1: "\<not> df_empty ?d1" and d2: "\<not> df_empty ?d2" and wf: "wf_dataframe ?d1"
    by (simp_all add: df_empty_def wf_dataframe_def)
  have names: "variable_names ''Hi {name}'' = [''name'']"
    by (simp add: variable_names_def py_strip_def isspace_def Let_def)
  have out: "replace_in_order (zip (columns ?d1) (hd (rows ?d1))) [''name''] ''Hi {name}'' = ''Hi Ana''"
    by (simp add: replace_in_order_def token_def py_replace_def replace_scan.simps)
  note th = preview_uses_first_row[OF d1, of "Some ''Hi {name}''" "''Hi {name}''" ?d2]
  note c2 = th[THEN conjunct2, THEN conjunct1, rule_format, OF wf, of 1]
  note c3 = th[THEN conjunct2, THEN conjunct2, THEN conjunct1, rule_format]
  note c4 = th[THEN conjunct2, THEN conjunct2, THEN conjunct2, rule_format]
  have v: "var_value (DataFrame ?d1) ''name'' = Inr (StrV ''Ana'')"
    using c2 by simp
  have "wf_dataframe ?d1 \<and> ''Hi {name}'' \<noteq> []
      \<and> set (variable_names ''Hi {name}'') \<subseteq> set (columns ?d1)"
    using wf names by simp
  from c3[OF this] names out
  have p: "format_preview_message (Some ''Hi {name}'') (Some ?d1) = Inr ''Hi Ana''"
    by simp
  have "\<not> df_empty ?d2 \<and> columns ?d2 = columns ?d1 \<and> hd (rows ?d2) = hd (rows ?d1)"
    using d2 by simp
  from c4[OF this]
  have e: "format_preview_message (Some ''Hi {name}'') (Some ?d2)
      = format_preview_message (Some ''Hi {name}'') (Some ?d1)" .
  from d1 d2 wf names v p e show ?thesis
    by simp
qed

section \<open>Formatting before sending\<close>




section \<open>Extraction and the matches of the pattern\<close>

lemma match_at_Suc: "match_at (c # cs) (Suc a) (Suc b) = match_at cs a b"
  by (simp add: match_at_def slice_def)

lemma match_at_not_0: "\<not> match_at t i 0"
  by (simp add: match_at_def)

lemma match_at_0D:
  assumes "match_at (c # cs) 0 j"
  shows "c = CHR ''{'' \<and> takeWhile (\<lambda>x. x \<noteq> CHR ''}'') cs = take (j - 1) cs
     \<and> take (j - 1) cs \<noteq> [] \<and> dropWhile (\<lambda>x. x \<noteq> CHR ''}'') cs = drop (j - 1) cs
     \<and> drop (j - 1) cs \<noteq> []"
proof -
  from assms have j: "1 < j" "j - 1 < length cs" and c: "c = CHR ''{''"
    and close: "cs ! (j - 1) = CHR ''}''"
    and none: "CHR ''}'' \<notin> set (take (j - 1) cs)"
    by (auto simp: match_at_def slice_def nth_Cons')
  have "takeWhile (\<lambda>x. x \<noteq> CHR ''}'') cs = take (j - 1) cs"
  proof (rule takeWhile_eq_take_P_nth)
    fix i assume "i < j - 1" "i < length cs"
    then have "cs ! i \<in> set (take (j - 1) cs)"
      by (metis in_set_conv_nth length_take min_less_iff_conj nth_take)
    with none show "cs ! i \<noteq> CHR ''}''" by metis
  next
    show "\<not> cs ! (j - 1) \<noteq> CHR ''}''" using close by simp
  qed
  moreover from this have "dropWhile (\<lambda>x. x \<noteq> CHR ''}'') cs = drop (j - 1) cs"
    by (metis append_take_drop_id same_append_eq takeWhile_dropWhile_id)
  ultimately show ?thesis
    using j c by auto
qed

lemma match_at_0I:
  assumes "takeWhile (\<lambda>x. x \<noteq> CHR ''}'') cs \<noteq> []" and "dropWhile (\<lambda>x. x \<noteq> CHR ''}'') cs \<noteq> []"
  shows "match_at (CHR ''{'' # cs) 0 (Suc (length (takeWhile (\<lambda>x. x \<noteq> CHR ''}'') cs)))"
proof -
  let ?n = "length (takeWhile (\<lambda>x. x \<noteq> CHR ''}'') cs)"
  have n: "?n < length cs"
    using assms(2) by (metis dropWhile_eq_drop drop_eq_Nil not_le_imp_less)
  then have "cs ! ?n = CHR ''}''"
    using nth_length_takeWhile[of "\<lambda>x. x \<noteq> CHR ''}''" cs] by simp
  moreover have "take ?n cs = takeWhile (\<lambda>x. x \<noteq> CHR ''}'') cs"
    by (metis append_eq_conv_conj takeWhile_dropWhile_id)
  moreover have "CHR ''}'' \<notin> set (takeWhile (\<lambda>x. x \<noteq> CHR ''}'') cs)"
    using set_takeWhileD by fastforce
  ultimately show ?thesis
    using assms(1) n by (simp add: match_at_def slice_def)
qed

lemma placeholders_leftmost:
  assumes "match_at t i j" and "\<forall>i' j'. i' < i \<longrightarrow> \<not> match_at t i' j'"
  shows "placeholders t = slice t (Suc i) j # placeholders (drop (Suc j) t)"
  using assms
proof (induction t arbitrary: i j)
  case Nil
  then show ?case by (simp add: match_at_def)
next
  case (Cons c cs)
  show ?case
  proof (cases i)
    case 0
    with Cons.prems(1) have m: "match_at (c # cs) 0 j" by simp
    from match_at_0D[OF m] have "placeholders (c # cs) = take (j - 1) cs # placeholders (tl (drop (j - 1) cs))"
      by (simp add: Let_def)
    moreover from m have "1 < j" by (simp add: match_at_def)
    then have "tl (drop (j - 1) cs) = drop (Suc j) (c # cs)"
      by (cases j) (simp_all add: drop_Suc tl_drop)
    moreover have "slice (c # cs) (Suc i) j = take (j - 1) cs"
      using 0 by (simp add: slice_def)
    ultimately show ?thesis by simp
  next
    case (Suc a)
    with Cons.prems(1) obtain b where j: "j = Suc b"
      by (cases j) (simp_all add: match_at_def)
    from Cons.prems(2) Suc have no0: "\<And>j'. \<not> match_at (c # cs) 0 j'" by simp
    have skip: "placeholders (c # cs) = placeholders cs"
    proof (cases "c = CHR ''{'' \<and> takeWhile (\<lambda>x. x \<noteq> CHR ''}'') cs \<noteq> []
        \<and> dropWhile (\<lambda>x. x \<noteq> CHR ''}'') cs \<noteq> []")
      case True
      with match_at_0I[of cs] no0 show ?thesis by blast
    next
      case False
      then show ?thesis by (auto simp: Let_def)
    qed
    have m: "match_at cs a b"
      using Cons.prems(1) Suc j by (simp add: match_at_Suc)
    have least: "\<forall>i' j'. i' < a \<longrightarrow> \<not> match_at cs i' j'"
    proof (intro allI impI)
      fix i' j' assume "i' < a"
      then have "\<not> match_at (c # cs) (Suc i') (Suc j')"
        using Cons.prems(2) Suc by simp
      then show "\<not> match_at cs i' j'" by (simp add: match_at_Suc)
    qed
    from Cons.IH[OF m least] have "placeholders cs = slice cs (Suc a) b # placeholders (drop (Suc b) cs)" .
    moreover have "slice (c # cs) (Suc i) j = slice cs (Suc a) b"
      using Suc j by (simp add: slice_def)
    ultimately show ?thesis
      using skip j by simp
  qed
qed

lemma placeholders_match:
  "placeholders t \<noteq> [] \<Longrightarrow> \<exists>i j. match_at t i j"
proof (induction t)
  case Nil
  then show ?case by simp
next
  case (Cons c cs)
  show ?case
  proof (cases "c = CHR ''{'' \<and> takeWhile (\<lambda>x. x \<noteq> CHR ''}'') cs \<noteq> []
        \<and> dropWhile (\<lambda>x. x \<noteq> CHR ''}'') cs \<noteq> []")
    case True
    with match_at_0I[of cs] show ?thesis by blast
  next
    case False
    with Cons.prems have "placeholders cs \<noteq> []" by (auto simp: Let_def split: if_splits)
    with Cons.IH obtain a b where "match_at cs a b" by blast
    then have "match_at (c # cs) (Suc a) (Suc b)" by (simp add: match_at_Suc)
    then show ?thesis by blast
  qed
qed

lemma match_leftmost:
  assumes "match_at t i j"
  shows "\<exists>a b. match_at t a b \<and> (\<forall>i' j'. i' < a \<longrightarrow> \<not> match_at t i' j')"
proof -
  define a where "a = (LEAST a. \<exists>b. match_at t a b)"
  have "\<exists>b. match_at t a b"
    unfolding a_def using assms by (rule_tac LeastI[of "\<lambda>a. \<exists>b. match_at t a b" i]) blast
  moreover have "\<forall>i' j'. i' < a \<longrightarrow> \<not> match_at t i' j'"
    unfolding a_def using not_less_Least by blast
  ultimately show ?thesis by blast
qed

lemma placeholders_empty_iff: "placeholders t = [] \<longleftrightarrow> (\<nexists>i j. match_at t i j)"
proof
  assume e: "placeholders t = []"
  show "\<nexists>i j. match_at t i j"
  proof
    assume "\<exists>i j. match_at t i j"
    then obtain a b where "match_at t a b" "\<forall>i' j'. i' < a \<longrightarrow> \<not> match_at t i' j'"
      using match_leftmost by blast
    from placeholders_leftmost[OF this] e show False by simp
  qed
next
  assume "\<nexists>i j. match_at t i j"
  then show "placeholders t = []" using placeholders_match by blast
qed

text \<open>
  The two facts fix extraction: a function that gives no name exactly when the
  pattern matches nowhere, and otherwise the name of the leftmost match followed by
  what it gives behind that match, is \<^verbatim>\<open>placeholders\<close>.
\<close>

lemma extraction_determined:
  assumes none: "\<And>t. (f t = []) = (\<nexists>i j. match_at t i j)"
    and first: "\<And>t i j. match_at t i j \<Longrightarrow> \<forall>i' j'. i' < i \<longrightarrow> \<not> match_at t i' j'
        \<Longrightarrow> f t = slice t (Suc i) j # f (drop (Suc j) t)"
  shows "f t = placeholders t"
proof (induction "length t" arbitrary: t rule: less_induct)
  case less
  show ?case
  proof (cases "\<exists>i j. match_at t i j")
    case False
    then show ?thesis using none[of t] placeholders_empty_iff[of t] by simp
  next
    case True
    then obtain a b where m: "match_at t a b" "\<forall>i' j'. i' < a \<longrightarrow> \<not> match_at t i' j'"
      using match_leftmost by blast
    then have "b < length t" by (simp add: match_at_def)
    then have "length (drop (Suc b) t) < length t" by simp
    from less[OF this] first[OF m] placeholders_leftmost[OF m] show ?thesis by simp
  qed
qed

text \<open>
  Claim C7. For every template, extraction gives the names of the matches of the
  pattern from left to right, duplicates kept: it gives no name exactly when the
  pattern matches nowhere in the template; otherwise, with the leftmost match standing
  from position i to position j, it gives the text between the two braces followed by
  what extraction gives on the template behind position j. In particular the first
  token behind a brace-free prefix gives the first name; every name given is not
  empty, has no closing brace and stands in the template between braces; a template
  without an opening or without a closing brace gives no name; an empty pair of
  braces is passed over; and \<^verbatim>\<open>"{a}-{b}-{a}"\<close> gives a, b, a.
\<close>

theorem placeholders_extraction:
  "(placeholders t = [] \<longleftrightarrow> (\<nexists>i j. match_at t i j))
   \<and> (match_at t i j \<and> (\<forall>i' j'. i' < i \<longrightarrow> \<not> match_at t i' j')
        \<longrightarrow> placeholders t = slice t (Suc i) j # placeholders (drop (Suc j) t))
   \<and> (CHR ''{'' \<notin> set pre \<and> name \<noteq> [] \<and> CHR ''}'' \<notin> set name
        \<longrightarrow> placeholders (pre @ token name @ rest) = name # placeholders rest)
   \<and> (CHR ''{'' \<notin> set u \<or> CHR ''}'' \<notin> set u \<longrightarrow> placeholders u = [])
   \<and> (\<forall>n \<in> set (placeholders s). n \<noteq> [] \<and> CHR ''}'' \<notin> set n \<and> sublist (token n) s)
   \<and> placeholders ''{a}-{b}-{a}'' = [''a'', ''b'', ''a'']
   \<and> variable_names ''{a}-{b}-{a}'' = [''a'', ''b'', ''a'']
   \<and> placeholders ''{}{a}'' = [''a'']
   \<and> placeholders ''Set {} is empty, {name}'' = [''name'']"
proof -
  have ex: "placeholders ''{a}-{b}-{a}'' = [''a'', ''b'', ''a'']"
    by (simp add: Let_def)
  have "py_strip ''a'' = ''a''" and "py_strip ''b'' = ''b''"
    by (simp_all add: py_strip_def isspace_def)
  with ex have vn: "variable_names ''{a}-{b}-{a}'' = [''a'', ''b'', ''a'']"
    by (simp only: variable_names_def list.map)
  have e1: "placeholders ''{}{a}'' = [''a'']"
    by (simp add: Let_def)
  have e2: "placeholders ''Set {} is empty, {name}'' = [''name'']"
    by (simp add: Let_def)
  have old: "(CHR ''{'' \<notin> set pre \<and> name \<noteq> [] \<and> CHR ''}'' \<notin> set name
        \<longrightarrow> placeholders (pre @ token name @ rest) = name # placeholders rest)
   \<and> (CHR ''{'' \<notin> set u \<or> CHR ''}'' \<notin> set u \<longrightarrow> placeholders u = [])
   \<and> (\<forall>n \<in> set (placeholders s). n \<noteq> [] \<and> CHR ''}'' \<notin> set n \<and> sublist (token n) s)"
    using placeholders_first[of pre name rest] placeholders_no_open[of u]
      placeholders_no_close[of u] placeholders_sound[of _ s]
    by blast
  have new: "(match_at t i j \<and> (\<forall>i' j'. i' < i \<longrightarrow> \<not> match_at t i' j')
        \<longrightarrow> placeholders t = slice t (Suc i) j # placeholders (drop (Suc j) t))"
    using placeholders_leftmost[of t i j] by blast
  from placeholders_empty_iff[of t] new old ex vn e1 e2 show ?thesis
    by (simp only: simp_thms)
qed

theorem placeholders_extraction_witness:
  "match_at ''{}{a}{b}'' 2 4
   \<and> \<not> match_at ''{}{a}{b}'' 0 1 \<and> \<not> match_at ''{}{a}{b}'' 0 4 \<and> \<not> match_at ''{}{a}{b}'' 1 4
   \<and> slice ''{}{a}{b}'' 3 4 = ''a'' \<and> drop 5 ''{}{a}{b}'' = ''{b}''
   \<and> placeholders ''{}{a}{b}'' = ''a'' # placeholders ''{b}''
   \<and> placeholders ''{}}{'' = []
   \<and> CHR ''{'' \<notin> set ''Hi '' \<and> ''name'' \<noteq> [] \<and> CHR ''}'' \<notin> set ''name''
   \<and> placeholders (''Hi '' @ token ''name'' @ ''!'') = [''name'']
   \<and> CHR ''{'' \<notin> set ''plain''
   \<and> placeholders ''plain'' = []
   \<and> ''name'' \<in> set (placeholders ''Hi {name}!'')
   \<and> sublist (token ''name'') ''Hi {name}!''"
proof -
  have m: "match_at ''{}{a}{b}'' 2 4"
    by (simp add: match_at_def slice_def)
  have least: "\<forall>i' j'. i' < 2 \<longrightarrow> \<not> match_at ''{}{a}{b}'' i' j'"
  proof (intro allI impI)
    fix i' j' :: nat assume "i' < 2"
    then consider "i' = 0" | "i' = 1" by linarith
    then show "\<not> match_at ''{}{a}{b}'' i' j'"
    proof cases
      case 1
      have "Suc 0 < j' \<Longrightarrow> CHR ''}'' \<in> set (take (j' - Suc 0) ''}{a}{b}'')"
        by (cases j') (simp_all add: take_Cons')
      with 1 show ?thesis by (auto simp: match_at_def slice_def)
    next
      case 2
      then show ?thesis by (simp add: match_at_def)
    qed
  qed
  have none: "\<nexists>i j. match_at ''{}}{'' i j"
  proof
    assume "\<exists>i j. match_at ''{}}{'' i j"
    then obtain i j where mm: "match_at ''{}}{'' i j" by blast
    then have "j < 4" "Suc i < j" by (simp_all add: match_at_def)
    then consider "i = 0" | "i = 1 \<and> j = 3" by linarith
    then show False
    proof cases
      case 1
      have "Suc 0 < j \<Longrightarrow> CHR ''}'' \<in> set (take (j - Suc 0) ''}}{'')"
        by (cases j) (simp_all add: take_Cons')
      with 1 mm show ?thesis by (auto simp: match_at_def slice_def)
    next
      case 2
      with mm show ?thesis by (simp add: match_at_def)
    qed
  qed
  have rest: "\<not> match_at ''{}{a}{b}'' 0 1 \<and> \<not> match_at ''{}{a}{b}'' 0 4 \<and> \<not> match_at ''{}{a}{b}'' 1 4
     \<and> slice ''{}{a}{b}'' 3 4 = ''a'' \<and> drop 5 ''{}{a}{b}'' = ''{b}''"
    using least by (simp add: slice_def)
  have p1: "placeholders ''{}{a}{b}'' = ''a'' # placeholders ''{b}''"
    using placeholders_extraction[where t = "''{}{a}{b}''" and i = 2 and j = 4,
        THEN conjunct2, THEN conjunct1] m least
    by (simp add: slice_def)
  have p2: "placeholders ''{}}{'' = []"
    using placeholders_extraction[where t = "''{}}{''", THEN conjunct1] none by simp
  have p3: "CHR ''{'' \<notin> set ''Hi '' \<and> ''name'' \<noteq> [] \<and> CHR ''}'' \<notin> set ''name''
   \<and> placeholders (''Hi '' @ token ''name'' @ ''!'') = [''name'']
   \<and> CHR ''{'' \<notin> set ''plain''
   \<and> placeholders ''plain'' = []
   \<and> ''name'' \<in> set (placeholders ''Hi {name}!'')
   \<and> sublist (token ''name'') ''Hi {name}!''"
    using placeholders_extraction[where pre = "''Hi ''" and name = "''name''" and rest = "''!''"
        and u = "''plain''" and s = "''Hi {name}!''"]
    by simp
  from m rest p1 p2 p3 show ?thesis by (simp only: simp_thms)
qed

section \<open>Substitution in extraction order\<close>
















end
